theory Spec2Isabelle
  imports Complex_Main "HOL-Library.Multiset" "HOL-Library.AList"
begin

section \<open>The streaming connection (binance\_client.py)\<close>

text \<open>
  The client is modelled by explicit state passing. Every \<open>logger\<close> call of the
  modelled methods appends one entry to the field \<open>logger\<close>; the entries keep the
  level and the data the message is built from, not its wording. Wall-clock
  readings (\<open>time.time()\<close>) are inputs of the functions that read the clock.
\<close>

datatype log_entry =
    Info_started
  | Warning_already_running
  | Info_trying string
  | Info_connected nat
  | Info_proactive_reconnect
  | Info_switch_host string
  | Info_loop_exited
  | Warning_connection_closed
  | Warning_connect_failed nat nat
  | Error_json_parse
  | Error_message_processing
  | Error_message_loop
  | Error_handler

record client =
  stream_path :: string
  websocket :: "nat option"
  is_connected :: bool
  is_running :: bool
  connection_start_time :: real
  message_count :: nat
  reconnect_count :: nat
  current_host_index :: nat
  logger :: "log_entry list"

definition MAX_CONNECTION_HOURS :: real where
  "MAX_CONNECTION_HOURS = 239 / 10"

definition BACKUP_HOSTS :: "string list" where
  "BACKUP_HOSTS = [''fstream.binance.com'', ''fstream1.binance.com'', ''fstream2.binance.com'']"

definition RECONNECT_INTERVALS :: "nat list" where
  "RECONNECT_INTERVALS = [1, 2, 5, 10, 20, 30, 60]"

text \<open>\<open>__init__\<close>: the state of a freshly constructed client.\<close>

definition client_init :: "string \<Rightarrow> client" where
  "client_init path =
     \<lparr> stream_path = path, websocket = None, is_connected = False, is_running = False,
       connection_start_time = 0, message_count = 0, reconnect_count = 0,
       current_host_index = 0, logger = [] \<rparr>"

text \<open>\<open>start\<close>; the background task it creates is \<open>connection_loop\<close> below.\<close>

definition client_start :: "client \<Rightarrow> client" where
  "client_start c =
     (if is_running c then c\<lparr>logger := logger c @ [Warning_already_running]\<rparr>
      else c\<lparr>is_running := True, logger := logger c @ [Info_started]\<rparr>)"

text \<open>
  A received frame is the text together with what \<open>json.loads\<close> does on it: it
  returns a payload, raises \<open>JSONDecodeError\<close>, or raises some other exception.
\<close>

datatype 'j frame = Json_text 'j | Not_json | Load_raises

text \<open>
  The registered handler acts on the state \<open>'w\<close> of whatever it belongs to; the
  flag of its result says whether it raised.
\<close>

type_synonym ('j, 'w) handler = "'j \<Rightarrow> 'w \<Rightarrow> bool \<times> 'w"

definition call_handler_safely ::
  "('j, 'w) handler \<Rightarrow> 'j \<Rightarrow> client \<times> 'w \<Rightarrow> client \<times> 'w" where
  "call_handler_safely h d cw =
     (case cw of (c, w) \<Rightarrow>
        (case h d w of (raised, w') \<Rightarrow>
           (if raised then (c\<lparr>logger := logger c @ [Error_handler]\<rparr>, w') else (c, w'))))"

definition process_message ::
  "('j, 'w) handler option \<Rightarrow> 'j frame \<Rightarrow> client \<times> 'w \<Rightarrow> client \<times> 'w" where
  "process_message data_handler message cw =
     (case cw of (c, w) \<Rightarrow>
        (let c1 = c\<lparr>message_count := message_count c + 1\<rparr> in
         case message of
           Json_text d \<Rightarrow>
             (case data_handler of
                None \<Rightarrow> (c1, w)
              | Some h \<Rightarrow> call_handler_safely h d (c1, w))
         | Not_json \<Rightarrow> (c1\<lparr>logger := logger c1 @ [Error_json_parse]\<rparr>, w)
         | Load_raises \<Rightarrow> (c1\<lparr>logger := logger c1 @ [Error_message_processing]\<rparr>, w)))"

definition should_reconnect :: "real \<Rightarrow> client \<Rightarrow> bool" where
  "should_reconnect now c =
     (now - connection_start_time c > MAX_CONNECTION_HOURS * 3600)"

text \<open>
  What one bounded-timeout \<open>recv\<close> of the message loop yields: a frame, the
  timeout, \<open>ConnectionClosed\<close>, or another exception.
\<close>

datatype 'j recv = Frame "'j frame" | Recv_timeout | Connection_closed | Recv_raises

definition leave_message_loop :: "client \<Rightarrow> client" where
  "leave_message_loop c = c\<lparr>is_connected := False, websocket := None\<rparr>"

text \<open>
  \<open>_message_loop\<close> over the receives that happen, each with the clock reading of
  its iteration. When the list is used up with the loop still running, the state
  inside the loop is returned (the loop is waiting for the next receive).
\<close>

fun message_loop ::
  "('j, 'w) handler option \<Rightarrow> (real \<times> 'j recv) list \<Rightarrow> client \<times> 'w \<Rightarrow> client \<times> 'w" where
  "message_loop h [] (c, w) =
     (if is_connected c \<and> is_running c then (c, w) else (leave_message_loop c, w))"
| "message_loop h ((now, ev) # evs) (c, w) =
     (if is_connected c \<and> is_running c then
        (if should_reconnect now c
         then (leave_message_loop (c\<lparr>logger := logger c @ [Info_proactive_reconnect]\<rparr>), w)
         else (case ev of
                 Frame m \<Rightarrow> message_loop h evs (process_message h m (c, w))
               | Recv_timeout \<Rightarrow> message_loop h evs (c, w)
               | Connection_closed \<Rightarrow>
                   (leave_message_loop (c\<lparr>logger := logger c @ [Warning_connection_closed]\<rparr>), w)
               | Recv_raises \<Rightarrow>
                   (leave_message_loop (c\<lparr>logger := logger c @ [Error_message_loop]\<rparr>), w)))
      else (leave_message_loop c, w))"

definition get_current_url :: "client \<Rightarrow> string" where
  "get_current_url c = ''wss://'' @ BACKUP_HOSTS ! current_host_index c @ stream_path c"

definition switch_to_next_host :: "client \<Rightarrow> client" where
  "switch_to_next_host c =
     (let i = (current_host_index c + 1) mod length BACKUP_HOSTS
      in c\<lparr>current_host_index := i, logger := logger c @ [Info_switch_host (BACKUP_HOSTS ! i)]\<rparr>)"

definition get_reconnect_interval :: "nat \<Rightarrow> nat" where
  "get_reconnect_interval attempt =
     (if attempt < length RECONNECT_INTERVALS then RECONNECT_INTERVALS ! attempt
      else last RECONNECT_INTERVALS)"

definition handle_connection_error :: "nat \<Rightarrow> client \<Rightarrow> client" where
  "handle_connection_error attempt c =
     (let c1 = c\<lparr>is_connected := False, websocket := None\<rparr>
      in if \<not> is_running c1 then c1
         else c1\<lparr>logger := logger c1 @ [Warning_connect_failed (get_reconnect_interval attempt) (attempt + 1)]\<rparr>)"

text \<open>
  One pass of \<open>_connection_loop\<close> goes one of two ways: the connect (or
  anything else inside the \<open>try\<close>) raises, or the connection is made at some
  time and the message loop runs over its receives. A message loop that is
  still waiting when its receives are used up ends the run of the model there.
\<close>

datatype 'j attempt = Connect_raises | Connect_ok real "(real \<times> 'j recv) list"

text \<open>
  The \<open>except\<close> branch of \<open>_connection_loop\<close>; the attempt counter is its local
  variable. The sleep that follows (of \<open>get_reconnect_interval\<close> of the new
  counter) changes no state and is left out.
\<close>

definition connection_failed :: "nat \<Rightarrow> client \<Rightarrow> nat \<times> client" where
  "connection_failed reconnect_attempt c =
     (reconnect_attempt + 1, switch_to_next_host (handle_connection_error reconnect_attempt c))"

definition connection_made :: "real \<Rightarrow> client \<Rightarrow> client" where
  "connection_made now c =
     c\<lparr>websocket := Some (reconnect_count c + 1), is_connected := True,
       connection_start_time := now, reconnect_count := reconnect_count c + 1,
       logger := logger c @ [Info_connected (reconnect_count c + 1)]\<rparr>"

fun connection_loop ::
  "('j, 'w) handler option \<Rightarrow> 'j attempt list \<Rightarrow> nat \<Rightarrow> client \<times> 'w \<Rightarrow> client \<times> 'w" where
  "connection_loop h [] reconnect_attempt (c, w) =
     (if is_running c then (c, w) else (c\<lparr>logger := logger c @ [Info_loop_exited]\<rparr>, w))"
| "connection_loop h (a # as) reconnect_attempt (c, w) =
     (if is_running c then
        (let c1 = c\<lparr>logger := logger c @ [Info_trying (get_current_url c)]\<rparr> in
         case a of
           Connect_raises \<Rightarrow>
             (case connection_failed reconnect_attempt c1 of
                (n, c2) \<Rightarrow> connection_loop h as n (c2, w))
         | Connect_ok now evs \<Rightarrow>
             (let cw = message_loop h evs (connection_made now c1, w)
              in if is_connected (fst cw) \<and> is_running (fst cw) then cw
                 else connection_loop h as 0 cw))
      else (c\<lparr>logger := logger c @ [Info_loop_exited]\<rparr>, w))"

text \<open>The hosts the client switched to, in order, read off the log.\<close>

fun hosts_switched_to :: "log_entry list \<Rightarrow> string list" where
  "hosts_switched_to [] = []"
| "hosts_switched_to (Info_switch_host host # es) = host # hosts_switched_to es"
| "hosts_switched_to (e # es) = hosts_switched_to es"

section \<open>The analytics core (business\_core.py)\<close>

subsection \<open>Configuration (config.py)\<close>

definition MOVING_AVERAGE_WINDOW :: nat where
  "MOVING_AVERAGE_WINDOW = 512"

definition TOP_RANKING_COUNT :: nat where
  "TOP_RANKING_COUNT = 5"

definition STATS_PRINT_INTERVAL :: nat where
  "STATS_PRINT_INTERVAL = 100"

definition SYMBOL_SUFFIX_FILTER :: string where
  "SYMBOL_SUFFIX_FILTER = ''USDT''"

definition SYMBOL_EXCLUDE_KEYWORDS :: "string list" where
  "SYMBOL_EXCLUDE_KEYWORDS = [''UP'', ''DOWN'']"

subsection \<open>Statistics of a series\<close>

text \<open>
  Rates are Python floats; they are modelled as real numbers, so rounding is
  not part of the model. The one special float the code tests for, NaN, is
  \<open>None\<close>.
\<close>

text \<open>
  Modelled from the spec: \<open>Series.mean\<close> of pandas is not in the sources. It
  is the sample mean of the points, and NaN on an empty series.
\<close>

definition pd_mean :: "real list \<Rightarrow> real option" where
  "pd_mean xs = (if xs = [] then None else Some (sum_list xs / real (length xs)))"

text \<open>
  Modelled from the spec: \<open>Series.std\<close> of pandas is not in the sources. The
  code calls it without arguments; the spec (algorithm step 3) says this is the
  sample standard deviation, dividing by \<open>n - 1\<close>, which is NaN for fewer
  than two points.
\<close>

definition pd_std :: "real list \<Rightarrow> real option" where
  "pd_std xs =
     (case pd_mean xs of
        None \<Rightarrow> None
      | Some m \<Rightarrow>
          (if length xs < 2 then None
           else Some (sqrt (sum_list (map (\<lambda>x. (x - m)\<^sup>2) xs) / real (length xs - 1)))))"

text \<open>
  \<open>series.iloc[-n:]\<close>: the last \<open>n\<close> points, the whole series when it has
  fewer; for \<open>n = 0\<close> Python reads the slice as \<open>[0:]\<close>, the whole series.
\<close>

definition iloc_last :: "nat \<Rightarrow> 'a list \<Rightarrow> 'a list" where
  "iloc_last n xs = (if n = 0 then xs else drop (length xs - n) xs)"

subsection \<open>State\<close>

record champion =
  max_volatility :: real
  z_score :: real
  moving_average :: real
  std_dev :: real
  champion_old_rate :: real
  champion_new_rate :: real
  champion_timestamp :: real
  champion_age_hours :: real

record volatility =
  combined :: real
  vol_z_score :: real
  vol_moving_average :: real
  vol_std_dev :: real
  rate_change :: real
  champion_info :: champion
  timestamp :: real

datatype thread = Alive | Finished

text \<open>
  The \<open>logger\<close> calls of the core are not modelled: no claim about it reads
  them. The dictionaries that are iterated (\<open>current_rates\<close>, \<open>symbol_last_seen\<close>)
  are association lists in insertion order; the others are maps. A history is
  the series of (index timestamp, rate) points. \<open>top5_version\<close> counts the
  assignments to \<open>top5_symbols\<close>: each assignment publishes a new list object,
  so the published object is the same as long as the count is.
\<close>

record core =
  current_rates :: "(string \<times> real) list"
  rate_history :: "string \<rightharpoonup> (real \<times> real) list"
  volatility_data :: "string \<rightharpoonup> volatility"
  top5_symbols :: "string list"
  top5_version :: nat
  champion_records :: "string \<rightharpoonup> champion"
  total_symbols :: nat
  data_update_count :: nat
  last_update_time :: "real option"
  symbol_last_seen :: "(string \<times> real) list"
  ranking_thread :: "thread option"
  stop_event :: bool
  ranking_update_interval :: real
  window_size :: nat
  champion_ttl :: real

text \<open>\<open>__init__\<close>.\<close>

definition core_init :: core where
  "core_init =
     \<lparr> current_rates = [], rate_history = Map.empty, volatility_data = Map.empty,
       top5_symbols = [], top5_version = 0, champion_records = Map.empty,
       total_symbols = 0, data_update_count = 0, last_update_time = None,
       symbol_last_seen = [], ranking_thread = None, stop_event = False,
       ranking_update_interval = 2 / 10, window_size = MOVING_AVERAGE_WINDOW,
       champion_ttl = 15 * 60 \<rparr>"

subsection \<open>Starting and stopping the ranking thread\<close>

definition start :: "core \<Rightarrow> core" where
  "start s =
     (if ranking_thread s = None
      then s\<lparr>stop_event := False, ranking_thread := Some Alive\<rparr>
      else s)"

text \<open>
  \<open>stop\<close> sets the event and joins the thread if it is alive; the ranking loop
  tests the event once per period, so the joined thread has finished.
\<close>

definition stop :: "core \<Rightarrow> core" where
  "stop s =
     (let s1 = s\<lparr>stop_event := True\<rparr>
      in if ranking_thread s1 = Some Alive then s1\<lparr>ranking_thread := Some Finished\<rparr> else s1)"

text \<open>Whether the ranking loop is being executed.\<close>

definition ranking_loop_running :: "core \<Rightarrow> bool" where
  "ranking_loop_running s = (ranking_thread s = Some Alive)"

subsection \<open>Ingest\<close>

text \<open>
  An item of the feed, by the field pair \<open>_extract_rate\<close> recognises first and
  with the rate already converted by \<open>float\<close>: \<open>s\<close>/\<open>r\<close>,
  \<open>symbol\<close>/\<open>fundingRate\<close>, \<open>symbol\<close>/\<open>funding_rate\<close>. \<open>Unrecognised\<close> is
  every other item: not a dictionary, no recognised pair, a rate \<open>float\<close>
  rejects or turns into NaN or an infinity, a symbol that is not a string.
\<close>

datatype item =
    S_r string real
  | Symbol_fundingRate string real
  | Symbol_funding_rate string real
  | Unrecognised

fun extract_rate :: "item \<Rightarrow> (string \<times> real) option" where
  "extract_rate (S_r symbol r) = Some (symbol, r * 100)"
| "extract_rate (Symbol_fundingRate symbol r) = Some (symbol, r * 100)"
| "extract_rate (Symbol_funding_rate symbol r) = Some (symbol, r)"
| "extract_rate Unrecognised = None"

definition validate_item :: "item \<Rightarrow> bool" where
  "validate_item item =
     (case extract_rate item of
        None \<Rightarrow> False
      | Some (symbol, rate) \<Rightarrow> - 1000 < rate \<and> rate < 1000)"

fun startswith :: "string \<Rightarrow> string \<Rightarrow> bool" where
  "startswith s [] = True"
| "startswith [] (k # ks) = False"
| "startswith (c # cs) (k # ks) = (c = k \<and> startswith cs ks)"

definition endswith :: "string \<Rightarrow> string \<Rightarrow> bool" where
  "endswith s suffix = startswith (rev s) (rev suffix)"

text \<open>\<open>keyword in symbol\<close>.\<close>

fun contains :: "string \<Rightarrow> string \<Rightarrow> bool" where
  "contains [] keyword = (keyword = [])"
| "contains (c # cs) keyword = (startswith (c # cs) keyword \<or> contains cs keyword)"

definition should_process_symbol :: "string \<Rightarrow> bool" where
  "should_process_symbol symbol =
     (if \<not> endswith symbol SYMBOL_SUFFIX_FILTER then False
      else if list_ex (contains symbol) SYMBOL_EXCLUDE_KEYWORDS then False
      else True)"

text \<open>
  \<open>_calculate_volatility\<close>. All clock readings of one call are the one reading
  \<open>now\<close>. The dictionary stored under \<open>champion_info\<close> in \<open>volatility_data\<close> is the
  champion record itself; it is written only here, just before it is stored in
  both places, so the copy kept in the model never differs from it.
\<close>

definition calculate_volatility :: "string \<Rightarrow> real \<Rightarrow> real \<Rightarrow> real \<Rightarrow> core \<Rightarrow> core" where
  "calculate_volatility symbol old_rate new_rate now s =
     (case rate_history s symbol of
        None \<Rightarrow> s
      | Some history_series \<Rightarrow>
          if length history_series < 3 then s
          else
            let historical_data = butlast (map snd history_series) in
            if length historical_data < 2 then s
            else
              (case (pd_mean historical_data, pd_std historical_data) of
                 (Some mean, Some sd) \<Rightarrow>
                   if sd < 1 / 10 ^ 10 then s
                   else
                     let z = (new_rate - mean) / sd;
                         current_volatility = \<bar>z\<bar>;
                         records1 =
                           (case champion_records s symbol of
                              None \<Rightarrow> champion_records s
                            | Some c \<Rightarrow>
                                if now - champion_timestamp c > champion_ttl s
                                then (champion_records s)(symbol := None)
                                else champion_records s);
                         is_new_champion =
                           (case records1 symbol of
                              None \<Rightarrow> True
                            | Some c \<Rightarrow> current_volatility > max_volatility c);
                         records2 =
                           (if is_new_champion
                            then records1(symbol \<mapsto>
                                   \<lparr> max_volatility = current_volatility, z_score = z,
                                     moving_average = mean, std_dev = sd,
                                     champion_old_rate = old_rate, champion_new_rate = new_rate,
                                     champion_timestamp = now, champion_age_hours = 0 \<rparr>)
                            else records1)
                     in (case records2 symbol of
                           None \<Rightarrow> s\<lparr>champion_records := records2\<rparr>
                         | Some c \<Rightarrow>
                             let info = c\<lparr>champion_age_hours := (now - champion_timestamp c) / 3600\<rparr>
                             in s\<lparr>champion_records := records2(symbol \<mapsto> info),
                                  volatility_data := (volatility_data s)(symbol \<mapsto>
                                    \<lparr> combined = max_volatility info, vol_z_score = z_score info,
                                      vol_moving_average = moving_average info,
                                      vol_std_dev = std_dev info,
                                      rate_change = champion_new_rate info - champion_old_rate info,
                                      champion_info = info, timestamp = now \<rparr>)\<rparr>)
               | _ \<Rightarrow> s))"

text \<open>
  \<open>_process_single_item\<close>: the flag says whether the item was processed. No
  step of it raises on an item of the type above, so its \<open>except\<close> branch has
  no counterpart.
\<close>

definition process_single_item :: "real \<Rightarrow> item \<Rightarrow> core \<Rightarrow> bool \<times> core" where
  "process_single_item now item s =
     (if \<not> validate_item item then (False, s)
      else
        (case extract_rate item of
           None \<Rightarrow> (False, s)
         | Some (symbol, new_rate) \<Rightarrow>
             if \<not> should_process_symbol symbol then (False, s)
             else
               let old_rate = (case map_of (current_rates s) symbol of
                                 None \<Rightarrow> new_rate | Some r \<Rightarrow> r);
                   s1 = s\<lparr>current_rates := AList.update symbol new_rate (current_rates s)\<rparr>;
                   appended = (case rate_history s1 symbol of
                                 None \<Rightarrow> [(now, new_rate)]
                               | Some series \<Rightarrow> series @ [(now, new_rate)]);
                   kept = (if length appended > window_size s1
                           then iloc_last (window_size s1) appended else appended);
                   s2 = s1\<lparr>rate_history := (rate_history s1)(symbol \<mapsto> kept)\<rparr>;
                   s3 = s2\<lparr>symbol_last_seen := AList.update symbol now (symbol_last_seen s2)\<rparr>;
                   rate_diff = \<bar>new_rate - old_rate\<bar>;
                   s4 = (if rate_diff > 1 / 10 ^ 9
                         then calculate_volatility symbol old_rate new_rate now s3 else s3)
               in (True, s4)))"

definition update_statistics :: "real \<Rightarrow> core \<Rightarrow> core" where
  "update_statistics now s =
     s\<lparr>total_symbols := length (current_rates s),
       data_update_count := data_update_count s + 1,
       last_update_time := Some now\<rparr>"

definition remove_symbol :: "string \<Rightarrow> core \<Rightarrow> core" where
  "remove_symbol symbol s =
     s\<lparr>current_rates := AList.delete symbol (current_rates s),
       volatility_data := (volatility_data s)(symbol := None),
       rate_history := (rate_history s)(symbol := None),
       champion_records := (champion_records s)(symbol := None),
       symbol_last_seen := AList.delete symbol (symbol_last_seen s)\<rparr>"

definition cleanup_caches :: "real \<Rightarrow> core \<Rightarrow> core" where
  "cleanup_caches now s =
     (let inactive_threshold = 72 * 3600;
          inactive_symbols =
            map fst (filter (\<lambda>(symbol, last_seen). now - last_seen > inactive_threshold)
                       (symbol_last_seen s))
      in fold remove_symbol inactive_symbols s)"

text \<open>The loop of \<open>update_data\<close> over the items, counting the processed ones.\<close>

fun process_items :: "real \<Rightarrow> item list \<Rightarrow> nat \<times> core \<Rightarrow> nat \<times> core" where
  "process_items now [] (processed_count, s) = (processed_count, s)"
| "process_items now (item # items) (processed_count, s) =
     (case process_single_item now item s of
        (True, s') \<Rightarrow> process_items now items (processed_count + 1, s')
      | (False, s') \<Rightarrow> process_items now items (processed_count, s'))"

text \<open>
  \<open>update_data\<close> on a list of items (a single dictionary is the list of that
  one item; any other payload is the empty list).
\<close>

definition update_data :: "real \<Rightarrow> item list \<Rightarrow> core \<Rightarrow> core" where
  "update_data now items_to_process s =
     (case process_items now items_to_process (0, s) of
        (processed_count, s1) \<Rightarrow>
          if processed_count > 0 then
            (let s2 = update_statistics now s1
             in if data_update_count s2 mod 100 = 0 then cleanup_caches now s2 else s2)
          else s1)"

subsection \<open>Ranking\<close>

definition calculate_current_zscore :: "core \<Rightarrow> string \<Rightarrow> real" where
  "calculate_current_zscore s symbol =
     (case rate_history s symbol of
        None \<Rightarrow> 0
      | Some history_series \<Rightarrow>
          if length history_series < 3 then 0
          else
            let historical_data = butlast (map snd history_series);
                current_rate = last (map snd history_series)
            in if length historical_data < 2 then 0
               else
                 (case (pd_mean historical_data, pd_std historical_data) of
                    (Some mean, Some sd) \<Rightarrow>
                      if sd < 1 / 10 ^ 10 then 0
                      else \<bar>(current_rate - mean) / sd\<bar>
                  | _ \<Rightarrow> 0))"

text \<open>The score the loop of \<open>_update_top5_ranking\<close> derives for one symbol.\<close>

definition symbol_score :: "real \<Rightarrow> core \<Rightarrow> string \<Rightarrow> real" where
  "symbol_score now s symbol =
     (case champion_records s symbol of
        Some c \<Rightarrow>
          if now - champion_timestamp c \<le> champion_ttl s then max_volatility c
          else calculate_current_zscore s symbol
      | None \<Rightarrow> calculate_current_zscore s symbol)"

definition ranking_data :: "real \<Rightarrow> core \<Rightarrow> (string \<times> real) list" where
  "ranking_data now s =
     filter (\<lambda>(symbol, score). score > 0)
       (map (\<lambda>symbol. (symbol, symbol_score now s symbol)) (map fst (current_rates s)))"

text \<open>
  \<open>numpy.argsort\<close> is not in the sources and its default sort is not a stable
  one, so the order it gives to equal scores is not fixed by the code. It is a
  parameter of the model, and \<open>argsort_ok\<close> says what the code relies on for
  the array at hand: the result lists every index once, by ascending score.
\<close>

definition argsort_ok :: "(real list \<Rightarrow> nat list) \<Rightarrow> real list \<Rightarrow> bool" where
  "argsort_ok argsort scores =
     (mset (argsort scores) = mset [0..<length scores]
      \<and> sorted (map (\<lambda>i. scores ! i) (argsort scores)))"

text \<open>
  \<open>_update_top5_ranking\<close>. An index outside the array would raise in the
  indexing; the \<open>except\<close> branch then leaves the state as it was.
\<close>

definition update_top5_ranking :: "(real list \<Rightarrow> nat list) \<Rightarrow> real \<Rightarrow> core \<Rightarrow> core" where
  "update_top5_ranking argsort now s =
     (let ranking = ranking_data now s in
      if ranking = [] then s
      else
        let scores = map snd ranking;
            symbols = map fst ranking;
            sorted_indices = rev (argsort scores);
            top_count = min TOP_RANKING_COUNT (length sorted_indices);
            chosen = take top_count sorted_indices
        in if \<not> list_all (\<lambda>i. i < length symbols) chosen then s
           else
             let new_top5 = map (\<lambda>i. symbols ! i) chosen
             in if new_top5 \<noteq> top5_symbols s
                then s\<lparr>top5_symbols := new_top5, top5_version := top5_version s + 1\<rparr>
                else s)"

text \<open>An insertion sort of the indices by score: one function that meets \<open>argsort_ok\<close>.\<close>

definition argsort_insertion :: "real list \<Rightarrow> nat list" where
  "argsort_insertion scores = sort_key (\<lambda>i. scores ! i) [0..<length scores]"

subsection \<open>Reading the ranking\<close>

text \<open>
  A row of \<open>get_top5_data\<close>, without the fields that are constant or a
  formatted wall-clock time.
\<close>

record row =
  row_symbol :: string
  row_current_rate :: real
  row_rate_change :: real
  row_volatility :: real
  row_z_score :: real
  row_moving_average :: real
  row_std_dev :: real
  row_color_class :: string
  row_timestamp :: real

definition get_top5_data :: "core \<Rightarrow> row list" where
  "get_top5_data s =
     List.map_filter
       (\<lambda>symbol.
          case volatility_data s symbol of
            None \<Rightarrow> None
          | Some v \<Rightarrow>
              Some \<lparr> row_symbol = symbol,
                     row_current_rate = champion_new_rate (champion_info v),
                     row_rate_change = rate_change v,
                     row_volatility = combined v,
                     row_z_score = z_score (champion_info v),
                     row_moving_average = moving_average (champion_info v),
                     row_std_dev = std_dev (champion_info v),
                     row_color_class =
                       (if rate_change v > 0 then ''text-red-400''
                        else if rate_change v < 0 then ''text-green-400''
                        else ''text-gray-400''),
                     row_timestamp = timestamp v \<rparr>)
       (top5_symbols s)"

subsection \<open>Calls from outside\<close>

text \<open>The calls of the core that change its state, and a run of them.\<close>

datatype core_call = Call_start | Call_stop | Call_update_data real "item list"

fun call :: "core_call \<Rightarrow> core \<Rightarrow> core" where
  "call Call_start s = start s"
| "call Call_stop s = stop s"
| "call (Call_update_data now items) s = update_data now items s"

text \<open>A handler for the examples: it keeps the payloads it was called with.\<close>

definition record_payload :: "(nat, nat list) handler" where
  "record_payload d w = (False, w @ [d])"

subsection \<open>Notions for the properties, and example runs\<close>

text \<open>The record \<open>_calculate_volatility\<close> stores for a new champion.\<close>

definition fresh_champion :: "real \<Rightarrow> real \<Rightarrow> real \<Rightarrow> real \<Rightarrow> real \<Rightarrow> champion" where
  "fresh_champion m sd old new now =
     \<lparr> max_volatility = \<bar>(new - m) / sd\<bar>, z_score = (new - m) / sd,
       moving_average = m, std_dev = sd,
       champion_old_rate = old, champion_new_rate = new,
       champion_timestamp = now, champion_age_hours = 0 \<rparr>"

text \<open>
  The guards of the score computation: no history or fewer than 3 points, a
  historical partition of fewer than 2 points, a deviation that is NaN or below
  the epsilon.
\<close>

definition no_score :: "core \<Rightarrow> string \<Rightarrow> bool" where
  "no_score s symbol =
     (case rate_history s symbol of
        None \<Rightarrow> True
      | Some series \<Rightarrow>
          length series < 3 \<or> length (butlast (map snd series)) < 2
          \<or> (case pd_std (butlast (map snd series)) of
                None \<Rightarrow> True
              | Some sd \<Rightarrow> sd < 1 / 10 ^ 10))"

text \<open>
  A core for the examples: the points before the newest of its one history are
  1, 2, 3 (mean 2, sample deviation 1).
\<close>

definition example_core :: core where
  "example_core = core_init\<lparr>rate_history := [''BTCUSDT'' \<mapsto> [(0, 1), (1, 2), (2, 3), (3, 3)]]\<rparr>"

text \<open>
  The champion score of a symbol after each of a row of calls of
  \<open>_calculate_volatility\<close>, given as (old rate, new rate, time).
\<close>

fun champion_progression :: "string \<Rightarrow> (real \<times> real \<times> real) list \<Rightarrow> core \<Rightarrow> real option list" where
  "champion_progression symbol [] s = []"
| "champion_progression symbol ((old_rate, new_rate, now) # calls) s =
     (let s' = calculate_volatility symbol old_rate new_rate now s
      in map_option max_volatility (champion_records s' symbol)
           # champion_progression symbol calls s')"

text \<open>No retained history is longer than the window.\<close>

definition history_bounded :: "core \<Rightarrow> bool" where
  "history_bounded s =
     (\<forall>symbol series. rate_history s symbol = Some series \<longrightarrow> length series \<le> window_size s)"

text \<open>
  A core for the examples: two symbols, each with a champion made at time 10,
  of scores 1 and 3.
\<close>

definition two_champions_core :: core where
  "two_champions_core =
     core_init\<lparr>current_rates := [(''BTCUSDT'', 3), (''ETHUSDT'', 5)],
       champion_records := [''BTCUSDT'' \<mapsto> fresh_champion 2 1 2 3 10,
                            ''ETHUSDT'' \<mapsto> fresh_champion 2 1 3 5 10]\<rparr>"

text \<open>The entry \<open>_calculate_volatility\<close> writes to \<open>volatility_data\<close>.\<close>

definition cached_volatility :: "champion \<Rightarrow> real \<Rightarrow> volatility" where
  "cached_volatility info now =
     \<lparr> combined = max_volatility info, vol_z_score = z_score info,
       vol_moving_average = moving_average info, vol_std_dev = std_dev info,
       rate_change = champion_new_rate info - champion_old_rate info,
       champion_info = info, timestamp = now \<rparr>"

text \<open>An item of the feed for BTCUSDT, its rate given in percent.\<close>

definition btc :: "real \<Rightarrow> item" where
  "btc r = Symbol_funding_rate ''BTCUSDT'' r"

text \<open>
  The shape of a core that has seen only BTCUSDT: its current rate, its
  history, the count and time of the updates, its champion with the time of
  the cached score (if any), and the published list with its count.
\<close>

definition btc_core ::
  "real \<Rightarrow> (real \<times> real) list \<Rightarrow> nat \<Rightarrow> real \<Rightarrow> (champion \<times> real) option
   \<Rightarrow> string list \<times> nat \<Rightarrow> core" where
  "btc_core rate history n t champ published =
     core_init\<lparr>current_rates := [(''BTCUSDT'', rate)],
       rate_history := [''BTCUSDT'' \<mapsto> history],
       volatility_data :=
         (case champ of None \<Rightarrow> Map.empty
          | Some (c, tv) \<Rightarrow> [''BTCUSDT'' \<mapsto> cached_volatility c tv]),
       top5_symbols := fst published, top5_version := snd published,
       champion_records :=
         (case champ of None \<Rightarrow> Map.empty | Some (c, tv) \<Rightarrow> [''BTCUSDT'' \<mapsto> c]),
       total_symbols := 1, data_update_count := n, last_update_time := Some t,
       symbol_last_seen := [(''BTCUSDT'', t)]\<rparr>"

text \<open>
  A run for the examples: the rate is 0 three times, then 2, then jumps to 8.5.
  The jump is scored against the points 0, 0, 0, 2 (mean 0.5, deviation 1), so
  it makes a champion of score 8 at time 4.
\<close>

definition spike_feed :: "(real \<times> item list) list" where
  "spike_feed = [(0, [btc 0]), (1, [btc 0]), (2, [btc 0]), (3, [btc 2]), (4, [btc (17 / 2)])]"

definition spike_core :: core where
  "spike_core = fold (\<lambda>(now, items). update_data now items) spike_feed core_init"

text \<open>The same run followed by one more update with the rate unchanged.\<close>

definition stale_core :: core where
  "stale_core = update_data 5 [btc (17 / 2)] spike_core"

text \<open>
  The same run, a ranking pass at time 5, and at time 1000 an update whose rate
  2.1 is the mean of the five points before it.
\<close>

definition flat_core :: core where
  "flat_core =
     update_data 1000 [btc (21 / 10)] (update_top5_ranking argsort_insertion 5 spike_core)"

text \<open>Six hundred observations, one per second, with rates from 0 to 0.599.\<close>

definition long_feed :: "(real \<times> real) list" where
  "long_feed = map (\<lambda>i. (real i, real i / 1000)) [0..<600]"

text \<open>
  Every cached score is that of the champion record of its symbol, and a symbol
  without a cached score has no champion record.
\<close>

definition cache_matches_champion :: "core \<Rightarrow> bool" where
  "cache_matches_champion s =
     (\<forall>symbol.
        case volatility_data s symbol of
          None \<Rightarrow> champion_records s symbol = None
        | Some v \<Rightarrow>
            champion_records s symbol = Some (champion_info v)
            \<and> v = cached_volatility (champion_info v) (timestamp v))"

section \<open>Properties of the streaming connection\<close>

lemma hosts_switched_to_append:
  "hosts_switched_to (xs @ ys) = hosts_switched_to xs @ hosts_switched_to ys"
  by (induction xs rule: hosts_switched_to.induct) simp_all

text \<open>
  C9. Every pass through the \<open>except\<close> branch of the connection loop moves the
  host cursor one position on, wrapping at the end of the host list. With the
  cursor on the first of the three hosts, three connection failures in a row
  switch to the second, the third and the first host, in that order.
\<close>

theorem host_cursor_round_robin:
  assumes "is_running c" and "current_host_index c = 0"
  shows "(\<forall>n c'. current_host_index (snd (connection_failed n c'))
                 = (current_host_index c' + 1) mod length BACKUP_HOSTS)
       \<and> BACKUP_HOSTS ! current_host_index c = ''fstream.binance.com''
       \<and> hosts_switched_to
             (logger (fst (connection_loop h [Connect_raises, Connect_raises, Connect_raises] 0 (c, w))))
           = hosts_switched_to (logger c)
               @ [''fstream1.binance.com'', ''fstream2.binance.com'', ''fstream.binance.com'']
       \<and> current_host_index
             (fst (connection_loop h [Connect_raises, Connect_raises, Connect_raises] 0 (c, w))) = 0"
  using assms
  by (simp add: connection_failed_def switch_to_next_host_def handle_connection_error_def Let_def
      hosts_switched_to_append BACKUP_HOSTS_def)

theorem host_cursor_round_robin_witness:
  "is_running (client_start (client_init ''/ws/!markPrice@arr@1s''))
   \<and> current_host_index (client_start (client_init ''/ws/!markPrice@arr@1s'')) = 0
   \<and> hosts_switched_to
        (logger (fst (connection_loop (None :: (nat, nat list) handler option)
           [Connect_raises, Connect_raises, Connect_raises] 0
           (client_start (client_init ''/ws/!markPrice@arr@1s''), []))))
      = [''fstream1.binance.com'', ''fstream2.binance.com'', ''fstream.binance.com'']"
proof -
  let ?c = "client_start (client_init ''/ws/!markPrice@arr@1s'')"
  have r: "is_running ?c" by (simp add: client_start_def client_init_def)
  have i: "current_host_index ?c = 0" by (simp add: client_start_def client_init_def)
  have l: "hosts_switched_to (logger ?c) = []" by (simp add: client_start_def client_init_def)
  from host_cursor_round_robin [OF r i, of "None :: (nat, nat list) handler option" "[]"] r i l
  show ?thesis by simp
qed

text \<open>
  C8, as the code has it. Every received frame is counted, before it is decoded
  and whether or not it decodes. A frame that does not decode is logged, leaves
  the handler's state alone and leaves the client connected and running, so the
  message loop goes on with the next receive. The handler runs only on a
  decoded frame, on its payload.
\<close>

theorem every_frame_counted:
  assumes "is_connected c" and "is_running c" and "\<not> should_reconnect now c"
  shows "message_count (fst (process_message h m (c, w))) = message_count c + 1
       \<and> process_message h Not_json (c, w)
           = (c\<lparr>message_count := message_count c + 1, logger := logger c @ [Error_json_parse]\<rparr>, w)
       \<and> message_loop h ((now, Frame Not_json) # evs) (c, w)
           = message_loop h evs
               (c\<lparr>message_count := message_count c + 1, logger := logger c @ [Error_json_parse]\<rparr>, w)
       \<and> is_connected (fst (process_message h Not_json (c, w)))
       \<and> is_running (fst (process_message h Not_json (c, w)))
       \<and> ((\<forall>d. m \<noteq> Json_text d) \<longrightarrow> snd (process_message h m (c, w)) = w)
       \<and> (\<forall>g d. snd (process_message (Some g) (Json_text d) (c, w)) = snd (g d w))"
  using assms
  by (cases m)
     (auto simp: process_message_def call_handler_safely_def Let_def
           split: option.splits prod.splits)

theorem every_frame_counted_witness:
  "is_connected (connection_made 0 (client_start (client_init ''/ws/!markPrice@arr@1s'')))
   \<and> is_running (connection_made 0 (client_start (client_init ''/ws/!markPrice@arr@1s'')))
   \<and> \<not> should_reconnect 1 (connection_made 0 (client_start (client_init ''/ws/!markPrice@arr@1s'')))
   \<and> message_count
        (fst (process_message (Some record_payload) Not_json
               (connection_made 0 (client_start (client_init ''/ws/!markPrice@arr@1s'')), []))) = 1"
proof -
  let ?c = "connection_made 0 (client_start (client_init ''/ws/!markPrice@arr@1s''))"
  have a: "is_connected ?c" by (simp add: connection_made_def)
  have b: "is_running ?c" by (simp add: connection_made_def client_start_def client_init_def)
  have d: "\<not> should_reconnect 1 ?c"
    by (simp add: should_reconnect_def connection_made_def MAX_CONNECTION_HOURS_def)
  have e: "message_count ?c = 0" by (simp add: connection_made_def client_start_def client_init_def)
  note t = every_frame_counted [OF a b d, of "Some record_payload" Not_json "[]", THEN conjunct1]
  have "message_count (fst (process_message (Some record_payload) Not_json (?c, []))) = 1"
    unfolding t e by simp
  with a b d show ?thesis by blast
qed

text \<open>
  C8, as the claim has it, fails: after one frame that does not decode and one
  that does, the handler has been called once and the counter is 2.
\<close>

theorem undecodable_frame_is_counted:
  "message_count
     (fst (message_loop (Some record_payload) [(1, Frame Not_json), (2, Frame (Json_text 7))]
             (connection_made 0 (client_start (client_init ''/ws/!markPrice@arr@1s'')), []))) = 2
   \<and> snd (message_loop (Some record_payload) [(1, Frame Not_json), (2, Frame (Json_text 7))]
             (connection_made 0 (client_start (client_init ''/ws/!markPrice@arr@1s'')), [])) = [7]"
  by (simp add: connection_made_def client_start_def client_init_def should_reconnect_def
      MAX_CONNECTION_HOURS_def process_message_def call_handler_safely_def record_payload_def)

section \<open>Properties of the analytics core\<close>

subsection \<open>The ranking thread\<close>

lemma calculate_volatility_thread:
  "ranking_thread (calculate_volatility symbol old new now s) = ranking_thread s"
  by (simp add: calculate_volatility_def Let_def split: option.splits prod.splits)

lemma process_single_item_thread:
  "ranking_thread (snd (process_single_item now item s)) = ranking_thread s"
  by (simp add: process_single_item_def Let_def calculate_volatility_thread
      split: option.splits prod.splits)

lemma process_items_thread:
  "ranking_thread (snd (process_items now items (k, s))) = ranking_thread s"
proof (induction items arbitrary: k s)
  case Nil
  show ?case by simp
next
  case (Cons item items)
  obtain b s' where p: "process_single_item now item s = (b, s')"
    by (cases "process_single_item now item s")
  have "ranking_thread s' = ranking_thread s"
    using process_single_item_thread [of now item s] p by simp
  with Cons p show ?case by (cases b) simp_all
qed

lemma remove_symbols_thread:
  "ranking_thread (fold remove_symbol xs s) = ranking_thread s"
  by (induction xs arbitrary: s) (simp_all add: remove_symbol_def)

lemma update_data_thread:
  "ranking_thread (update_data now items s) = ranking_thread s"
proof -
  obtain k s1 where p: "process_items now items (0, s) = (k, s1)"
    by (cases "process_items now items (0, s)")
  have "ranking_thread s1 = ranking_thread s"
    using process_items_thread [of now items 0 s] p by simp
  with p show ?thesis
    by (simp add: update_data_def update_statistics_def cleanup_caches_def Let_def
        remove_symbols_thread)
qed

lemma call_thread_finished:
  "ranking_thread s = Some Finished \<Longrightarrow> ranking_thread (call c s) = Some Finished"
  by (cases c) (simp_all add: start_def stop_def update_data_thread Let_def)

lemma calls_thread_finished:
  "ranking_thread s = Some Finished \<Longrightarrow> ranking_thread (fold call cs s) = Some Finished"
  by (induction cs arbitrary: s) (simp_all add: call_thread_finished)

lemma stop_thread_finished:
  "ranking_thread s \<noteq> None \<Longrightarrow> ranking_thread (stop s) = Some Finished"
  by (cases "ranking_thread s"; simp add: stop_def Let_def) (metis thread.exhaust)

text \<open>
  C10. On a core that has been started (its thread handle is set), \<open>stop\<close>
  leaves the handle set, so a \<open>start\<close> after it changes nothing; and after any
  further calls of \<open>start\<close>, \<open>stop\<close> and \<open>update_data\<close>, \<open>start\<close> still changes
  nothing and the ranking loop is not running.
\<close>

theorem start_after_stop_is_noop:
  assumes "ranking_thread s \<noteq> None"
  shows "start (stop s) = stop s
       \<and> start (fold call cs (stop s)) = fold call cs (stop s)
       \<and> \<not> ranking_loop_running (start (fold call cs (stop s)))"
proof -
  have f: "ranking_thread (stop s) = Some Finished"
    using assms by (rule stop_thread_finished)
  then have g: "ranking_thread (fold call cs (stop s)) = Some Finished"
    by (rule calls_thread_finished)
  from f g show ?thesis by (simp add: start_def ranking_loop_running_def)
qed

theorem start_after_stop_is_noop_witness:
  "ranking_thread (start core_init) \<noteq> None
   \<and> ranking_loop_running (start core_init)
   \<and> start (stop (start core_init)) = stop (start core_init)
   \<and> \<not> ranking_loop_running
         (start (fold call [Call_start, Call_update_data 1 [S_r ''BTCUSDT'' (1 / 10000)], Call_stop]
                   (stop (start core_init))))"
proof -
  have h: "ranking_thread (start core_init) \<noteq> None"
    by (simp add: start_def core_init_def)
  have r: "ranking_loop_running (start core_init)"
    by (simp add: start_def core_init_def ranking_loop_running_def)
  note t = start_after_stop_is_noop [OF h,
      of "[Call_start, Call_update_data 1 [S_r ''BTCUSDT'' (1 / 10000)], Call_stop]"]
  from h r t show ?thesis by blast
qed

subsection \<open>Statistics of a series\<close>

lemma pd_mean_123: "pd_mean [1, 2, 3] = Some 2"
  by (simp add: pd_mean_def)

lemma pd_std_123: "pd_std [1, 2, 3] = Some 1"
  by (simp add: pd_std_def pd_mean_def)

lemma pd_mean_Some: "xs \<noteq> [] \<Longrightarrow> pd_mean xs = Some (sum_list xs / real (length xs))"
  by (simp add: pd_mean_def)

lemma pd_std_Some:
  "2 \<le> length xs \<Longrightarrow>
   pd_std xs = Some (sqrt (sum_list (map (\<lambda>x. (x - sum_list xs / real (length xs))\<^sup>2) xs)
                            / real (length xs - 1)))"
  by (auto simp: pd_std_def pd_mean_def)




subsection \<open>The score computation\<close>

lemma calculate_volatility_history [simp]:
  "rate_history (calculate_volatility symbol old new now s) = rate_history s"
  by (simp add: calculate_volatility_def Let_def split: option.splits prod.splits)

lemma calculate_volatility_ttl [simp]:
  "champion_ttl (calculate_volatility symbol old new now s) = champion_ttl s"
  by (simp add: calculate_volatility_def Let_def split: option.splits prod.splits)

lemma calculate_volatility_unscored:
  assumes "rate_history s symbol = None
         \<or> (\<exists>series. rate_history s symbol = Some series
              \<and> (length series < 3 \<or> length (butlast (map snd series)) < 2
                 \<or> pd_std (butlast (map snd series)) = None
                 \<or> (\<exists>sd. pd_std (butlast (map snd series)) = Some sd \<and> sd < 1 / 10 ^ 10)))"
  shows "calculate_volatility symbol old new now s = s"
  using assms
  by (auto simp: calculate_volatility_def Let_def split: option.splits prod.splits)


lemma champion_after_score:
  assumes "rate_history s symbol = Some series" and "3 \<le> length series"
    and "pd_mean (butlast (map snd series)) = Some m"
    and "pd_std (butlast (map snd series)) = Some sd"
    and "\<not> sd < 1 / 10 ^ 10"
  shows "champion_records (calculate_volatility symbol old new now s) symbol =
     Some (case champion_records s symbol of
             None \<Rightarrow> fresh_champion m sd old new now
           | Some c \<Rightarrow>
               if now - champion_timestamp c > champion_ttl s then fresh_champion m sd old new now
               else if \<bar>(new - m) / sd\<bar> > max_volatility c then fresh_champion m sd old new now
               else c\<lparr>champion_age_hours := (now - champion_timestamp c) / 3600\<rparr>)"
proof -
  have "\<not> length series - Suc 0 < 2" using assms(2) by arith
  with assms show ?thesis
    by (simp add: calculate_volatility_def Let_def fresh_champion_def split: option.splits)
qed

lemma current_zscore_scored:
  assumes "rate_history s symbol = Some series" and "3 \<le> length series"
    and "pd_mean (butlast (map snd series)) = Some m"
    and "pd_std (butlast (map snd series)) = Some sd"
    and "\<not> sd < 1 / 10 ^ 10"
  shows "calculate_current_zscore s symbol = \<bar>(last (map snd series) - m) / sd\<bar>"
proof -
  have "\<not> length series - Suc 0 < 2" using assms(2) by arith
  with assms show ?thesis
    by (simp add: calculate_current_zscore_def Let_def split: option.splits)
qed

subsection \<open>The first observations of a symbol\<close>

lemma no_score_unchanged:
  "no_score s symbol \<Longrightarrow> calculate_volatility symbol old new now s = s"
  by (rule calculate_volatility_unscored)
     (auto simp: no_score_def split: option.splits)


lemma process_single_item_accepted:
  assumes "validate_item item" and "extract_rate item = Some (symbol, r)"
    and "should_process_symbol symbol"
  shows "process_single_item now item s =
    (True,
     let old = (case map_of (current_rates s) symbol of None \<Rightarrow> r | Some x \<Rightarrow> x);
         appended = (case rate_history s symbol of
                       None \<Rightarrow> [(now, r)] | Some series \<Rightarrow> series @ [(now, r)]);
         kept = (if length appended > window_size s
                 then iloc_last (window_size s) appended else appended);
         s3 = s\<lparr>current_rates := AList.update symbol r (current_rates s),
                rate_history := (rate_history s)(symbol \<mapsto> kept),
                symbol_last_seen := AList.update symbol now (symbol_last_seen s)\<rparr>
     in if \<bar>r - old\<bar> > 1 / 10 ^ 9 then calculate_volatility symbol old r now s3 else s3)"
  using assms by (simp add: process_single_item_def Let_def)



subsection \<open>Champion replacement and the score formula\<close>

lemma btc_ok: "should_process_symbol ''BTCUSDT''"
  by (simp add: should_process_symbol_def endswith_def SYMBOL_SUFFIX_FILTER_def
      SYMBOL_EXCLUDE_KEYWORDS_def)

lemma example_history:
  "rate_history example_core ''BTCUSDT'' = Some [(0, 1), (1, 2), (2, 3), (3, 3)]"
  by (simp add: example_core_def)

lemma example_mean: "pd_mean (butlast (map snd [(0::real, 1::real), (1, 2), (2, 3), (3, 3)])) = Some 2"
  by (simp add: pd_mean_def)

lemma example_std: "pd_std (butlast (map snd [(0::real, 1::real), (1, 2), (2, 3), (3, 3)])) = Some 1"
  by (simp add: pd_std_def pd_mean_def)

lemma example_step:
  assumes "rate_history s ''BTCUSDT'' = Some [(0, 1), (1, 2), (2, 3), (3, 3)]"
  shows "champion_records (calculate_volatility ''BTCUSDT'' old new now s) ''BTCUSDT'' =
     Some (case champion_records s ''BTCUSDT'' of
             None \<Rightarrow> fresh_champion 2 1 old new now
           | Some c \<Rightarrow>
               if now - champion_timestamp c > champion_ttl s then fresh_champion 2 1 old new now
               else if \<bar>(new - 2) / 1\<bar> > max_volatility c then fresh_champion 2 1 old new now
               else c\<lparr>champion_age_hours := (now - champion_timestamp c) / 3600\<rparr>)"
  by (rule champion_after_score [OF assms _ example_mean example_std]) simp_all

lemma example_progression:
  "champion_progression ''BTCUSDT'' [(3, 3, 10), (3, 5 / 2, 20), (5 / 2, 4, 30), (4, 19 / 5, 40)]
     example_core = [Some 1, Some 1, Some 2, Some 2]"
proof -
  let ?s1 = "calculate_volatility ''BTCUSDT'' 3 3 10 example_core"
  let ?s2 = "calculate_volatility ''BTCUSDT'' 3 (5 / 2) 20 ?s1"
  let ?s3 = "calculate_volatility ''BTCUSDT'' (5 / 2) 4 30 ?s2"
  let ?s4 = "calculate_volatility ''BTCUSDT'' 4 (19 / 5) 40 ?s3"
  have t: "champion_ttl example_core = 900" by (simp add: example_core_def core_init_def)
  have c0: "champion_records example_core ''BTCUSDT'' = None"
    by (simp add: example_core_def core_init_def)
  have c1: "champion_records ?s1 ''BTCUSDT'' = Some (fresh_champion 2 1 3 3 10)"
    using example_step [OF example_history, of 3 3 10] c0 by simp
  have h1: "rate_history ?s1 ''BTCUSDT'' = Some [(0, 1), (1, 2), (2, 3), (3, 3)]"
    by (simp add: example_history)
  have c2: "champion_records ?s2 ''BTCUSDT'' =
      Some ((fresh_champion 2 1 3 3 10)\<lparr>champion_age_hours := (20 - 10) / 3600\<rparr>)"
    using example_step [OF h1, of 3 "5 / 2" 20] c1 t by (simp add: fresh_champion_def)
  have h2: "rate_history ?s2 ''BTCUSDT'' = Some [(0, 1), (1, 2), (2, 3), (3, 3)]"
    by (simp add: example_history)
  have c3: "champion_records ?s3 ''BTCUSDT'' = Some (fresh_champion 2 1 (5 / 2) 4 30)"
    using example_step [OF h2, of "5 / 2" 4 30] c2 t by (simp add: fresh_champion_def)
  have h3: "rate_history ?s3 ''BTCUSDT'' = Some [(0, 1), (1, 2), (2, 3), (3, 3)]"
    by (simp add: example_history)
  have c4: "champion_records ?s4 ''BTCUSDT'' =
      Some ((fresh_champion 2 1 (5 / 2) 4 30)\<lparr>champion_age_hours := (40 - 30) / 3600\<rparr>)"
    using example_step [OF h3, of 4 "19 / 5" 40] c3 t by (simp add: fresh_champion_def)
  show ?thesis
    by (simp add: Let_def c1 c2 c3 c4) (simp add: fresh_champion_def)
qed

text \<open>
  C3. Where a score is computed: a champion record within its TTL is replaced
  by the new record if and only if the new score is strictly greater than its
  stored score, and otherwise only its age field is refreshed; a record older
  than the TTL is dropped before the comparison, so the new record is stored
  whatever its score, as it is when there was no record. Scores 1, 0.5, 2, 1.8
  within one TTL give the champion scores 1, 1, 2, 2.
\<close>

theorem champion_replacement_monotonic:
  assumes "rate_history s symbol = Some series" and "3 \<le> length series"
    and "pd_mean (butlast (map snd series)) = Some m"
    and "pd_std (butlast (map snd series)) = Some sd"
    and "\<not> sd < 1 / 10 ^ 10"
  shows "(\<forall>c. champion_records s symbol = Some c \<and> now - champion_timestamp c \<le> champion_ttl s \<longrightarrow>
            champion_records (calculate_volatility symbol old new now s) symbol =
              Some (if \<bar>(new - m) / sd\<bar> > max_volatility c then fresh_champion m sd old new now
                    else c\<lparr>champion_age_hours := (now - champion_timestamp c) / 3600\<rparr>))
       \<and> (\<forall>c. champion_records s symbol = Some c \<and> now - champion_timestamp c > champion_ttl s \<longrightarrow>
            champion_records (calculate_volatility symbol old new now s) symbol =
              Some (fresh_champion m sd old new now))
       \<and> (champion_records s symbol = None \<longrightarrow>
            champion_records (calculate_volatility symbol old new now s) symbol =
              Some (fresh_champion m sd old new now))
       \<and> max_volatility (fresh_champion m sd old new now) = \<bar>(new - m) / sd\<bar>
       \<and> champion_timestamp (fresh_champion m sd old new now) = now
       \<and> champion_progression ''BTCUSDT''
            [(3, 3, 10), (3, 5 / 2, 20), (5 / 2, 4, 30), (4, 19 / 5, 40)] example_core
          = [Some 1, Some 1, Some 2, Some 2]"
  using champion_after_score [OF assms, of old new now] example_progression
  by (auto simp: fresh_champion_def)

theorem champion_replacement_monotonic_witness:
  "rate_history example_core ''BTCUSDT'' = Some [(0, 1), (1, 2), (2, 3), (3, 3)]
   \<and> pd_mean (butlast (map snd [(0::real, 1::real), (1, 2), (2, 3), (3, 3)])) = Some 2
   \<and> pd_std (butlast (map snd [(0::real, 1::real), (1, 2), (2, 3), (3, 3)])) = Some 1
   \<and> champion_records example_core ''BTCUSDT'' = None
   \<and> champion_records (calculate_volatility ''BTCUSDT'' 3 3 10 example_core) ''BTCUSDT''
       = Some (fresh_champion 2 1 3 3 10)"
proof -
  have l: "3 \<le> length [(0::real, 1::real), (1, 2), (2, 3), (3, 3)]" by simp
  have e: "\<not> (1::real) < 1 / 10 ^ 10" by simp
  have c0: "champion_records example_core ''BTCUSDT'' = None"
    by (simp add: example_core_def core_init_def)
  note t = champion_replacement_monotonic [OF example_history l example_mean example_std e,
      of 10 3 3]
  from t c0 example_history example_mean example_std show ?thesis by blast
qed

text \<open>
  C4. With the historical partition all retained points but the newest, its
  sample mean, and its deviation with divisor \<open>n - 1\<close> not below the epsilon:
  the live score is the absolute difference of the newest rate and the mean,
  divided by the deviation, and the record of a new champion carries the same
  formula on the new rate. For the partition 1, 2, 3 the mean is 2 and the
  deviation 1.
\<close>

theorem deviation_score_formula:
  assumes "rate_history s symbol = Some series" and "3 \<le> length series"
    and "historical = butlast (map snd series)"
    and "mean = sum_list historical / real (length historical)"
    and "sd = sqrt (sum_list (map (\<lambda>x. (x - mean)\<^sup>2) historical) / real (length historical - 1))"
    and "\<not> sd < 1 / 10 ^ 10"
  shows "calculate_current_zscore s symbol = \<bar>last (map snd series) - mean\<bar> / sd
       \<and> (champion_records s symbol = None \<longrightarrow>
            champion_records (calculate_volatility symbol old new now s) symbol =
              Some (fresh_champion mean sd old new now))
       \<and> max_volatility (fresh_champion mean sd old new now) = \<bar>new - mean\<bar> / sd
       \<and> moving_average (fresh_champion mean sd old new now) = mean
       \<and> std_dev (fresh_champion mean sd old new now) = sd
       \<and> pd_mean [1, 2, 3] = Some 2 \<and> pd_std [1, 2, 3] = Some 1"
proof -
  have "length historical = length series - 1" using assms(3) by simp
  then have n: "2 \<le> length historical" "historical \<noteq> []" using assms(2) by auto
  have m: "pd_mean (butlast (map snd series)) = Some mean"
    using n assms(3,4) by (simp add: pd_mean_def)
  have d: "pd_std (butlast (map snd series)) = Some sd"
    using pd_std_Some [OF n(1)] assms(3,4,5) by simp
  have pos: "0 < sd" using assms(6) by simp
  have a: "\<bar>sd\<bar> = sd" using pos by simp
  show ?thesis
    using current_zscore_scored [OF assms(1,2) m d assms(6)]
      champion_after_score [OF assms(1,2) m d assms(6), of old new now]
      pd_mean_123 pd_std_123
    by (simp add: a fresh_champion_def)
qed

theorem deviation_score_formula_witness:
  "rate_history example_core ''BTCUSDT'' = Some [(0, 1), (1, 2), (2, 3), (3, 3)]
   \<and> calculate_current_zscore example_core ''BTCUSDT'' = 1"
proof -
  have l: "3 \<le> length [(0::real, 1::real), (1, 2), (2, 3), (3, 3)]" by simp
  have h: "[1, 2, 3] = butlast (map snd [(0::real, 1::real), (1, 2), (2, 3), (3, 3)])" by simp
  have m: "(2::real) = sum_list [1, 2, 3] / real (length [1::real, 2, 3])" by simp
  have d: "(1::real) = sqrt (sum_list (map (\<lambda>x. (x - 2)\<^sup>2) [1, 2, 3]) / real (length [1::real, 2, 3] - 1))"
    by simp
  have e: "\<not> (1::real) < 1 / 10 ^ 10" by simp
  note t = deviation_score_formula [OF example_history l h m d e, THEN conjunct1]
  have "calculate_current_zscore example_core ''BTCUSDT'' = 1"
    unfolding t by simp
  with example_history show ?thesis by blast
qed


subsection \<open>The window\<close>

lemma iloc_last_length: "0 < n \<Longrightarrow> length (iloc_last n xs) \<le> n"
  by (simp add: iloc_last_def)

lemma iloc_last_short: "length xs \<le> n \<Longrightarrow> iloc_last n xs = xs"
  by (simp add: iloc_last_def)

lemma iloc_last_append:
  "0 < n \<Longrightarrow> iloc_last n (iloc_last n xs @ ys) = iloc_last n (xs @ ys)"
proof -
  assume n: "0 < n"
  have e: "length xs + length ys - (length xs - n + n) + (length xs - n)
           = length xs + length ys - n" by arith
  show ?thesis using n by (simp add: iloc_last_def e)
qed

lemma calculate_volatility_other [simp]:
  "current_rates (calculate_volatility symbol old new now s) = current_rates s"
  "top5_symbols (calculate_volatility symbol old new now s) = top5_symbols s"
  "top5_version (calculate_volatility symbol old new now s) = top5_version s"
  "total_symbols (calculate_volatility symbol old new now s) = total_symbols s"
  "data_update_count (calculate_volatility symbol old new now s) = data_update_count s"
  "last_update_time (calculate_volatility symbol old new now s) = last_update_time s"
  "symbol_last_seen (calculate_volatility symbol old new now s) = symbol_last_seen s"
  "window_size (calculate_volatility symbol old new now s) = window_size s"
  by (simp_all add: calculate_volatility_def Let_def split: option.splits prod.splits)

lemma process_single_item_window [simp]:
  "window_size (snd (process_single_item now item s)) = window_size s"
  by (simp add: process_single_item_def Let_def split: option.splits prod.splits)

lemma process_single_item_rejected:
  "\<not> fst (process_single_item now item s) \<Longrightarrow> snd (process_single_item now item s) = s"
proof (cases "validate_item item")
  case False
  then show ?thesis by (simp add: process_single_item_def)
next
  case v: True
  show "\<not> fst (process_single_item now item s) \<Longrightarrow> snd (process_single_item now item s) = s"
  proof (cases "extract_rate item")
    case None
    then show ?thesis by (simp add: process_single_item_def)
  next
    case (Some p)
    obtain symbol r where p: "p = (symbol, r)" by (cases p)
    assume n: "\<not> fst (process_single_item now item s)"
    have "\<not> should_process_symbol symbol"
    proof
      assume "should_process_symbol symbol"
      from process_single_item_accepted [OF v Some [unfolded p] this, of now s] n
      show False by simp
    qed
    then show ?thesis using v Some p by (simp add: process_single_item_def)
  qed
qed

lemma process_single_item_fifo:
  assumes "validate_item item" and "extract_rate item = Some (symbol, r)"
    and "should_process_symbol symbol" and "0 < window_size s"
  shows "rate_history (snd (process_single_item now item s)) =
     (rate_history s)(symbol \<mapsto>
        iloc_last (window_size s)
          ((case rate_history s symbol of None \<Rightarrow> [] | Some series \<Rightarrow> series) @ [(now, r)]))"
  using assms(4)
  by (auto simp: process_single_item_accepted [OF assms(1-3)] Let_def iloc_last_short
      split: option.splits)

lemma process_single_item_bounded:
  assumes "0 < window_size s" and "history_bounded s"
  shows "history_bounded (snd (process_single_item now item s))"
proof (cases "fst (process_single_item now item s)")
  case False
  then show ?thesis using assms(2) by (simp add: process_single_item_rejected)
next
  case True
  have v: "validate_item item"
    using True by (cases "validate_item item") (simp_all add: process_single_item_def)
  then obtain symbol r where e: "extract_rate item = Some (symbol, r)"
    by (cases "extract_rate item") (auto simp: validate_item_def)
  have "should_process_symbol symbol"
    using True v e by (cases "should_process_symbol symbol") (simp_all add: process_single_item_def)
  note a = v e this
  show ?thesis
    using assms iloc_last_length [OF assms(1)]
    by (auto simp: history_bounded_def process_single_item_fifo [OF a assms(1)])
qed

lemma process_items_window [simp]:
  "window_size (snd (process_items now items (k, s))) = window_size s"
proof (induction items arbitrary: k s)
  case Nil
  show ?case by simp
next
  case (Cons item items)
  obtain b s' where p: "process_single_item now item s = (b, s')"
    by (cases "process_single_item now item s")
  have "window_size s' = window_size s"
    using process_single_item_window [of now item s] p by simp
  with Cons p show ?case by (cases b) simp_all
qed

lemma process_items_bounded:
  "0 < window_size s \<Longrightarrow> history_bounded s \<Longrightarrow>
   history_bounded (snd (process_items now items (k, s)))"
proof (induction items arbitrary: k s)
  case Nil
  then show ?case by simp
next
  case (Cons item items)
  obtain b s' where p: "process_single_item now item s = (b, s')"
    by (cases "process_single_item now item s")
  have w: "0 < window_size s'"
    using process_single_item_window [of now item s] p Cons.prems(1) by simp
  have h: "history_bounded s'"
    using process_single_item_bounded [OF Cons.prems, of now item] p by simp
  from Cons.IH [OF w h] p show ?case by (cases b) simp_all
qed

lemma remove_symbols_bounded:
  "history_bounded s \<Longrightarrow> history_bounded (fold remove_symbol xs s)"
proof (induction xs arbitrary: s)
  case Nil
  then show ?case by simp
next
  case (Cons x xs)
  have "history_bounded (remove_symbol x s)"
    using Cons.prems by (auto simp: history_bounded_def remove_symbol_def)
  then show ?case using Cons.IH by simp
qed

lemma remove_symbols_window [simp]:
  "window_size (fold remove_symbol xs s) = window_size s"
  by (induction xs arbitrary: s) (simp_all add: remove_symbol_def)

lemma update_data_window:
  "window_size (update_data now items s) = window_size s"
proof -
  obtain k s1 where p: "process_items now items (0, s) = (k, s1)"
    by (cases "process_items now items (0, s)")
  have "window_size s1 = window_size s"
    using process_items_window [of now items 0 s] p by simp
  with p show ?thesis
    by (simp add: update_data_def update_statistics_def cleanup_caches_def Let_def)
qed

lemma update_data_bounded:
  assumes "0 < window_size s" and "history_bounded s"
  shows "history_bounded (update_data now items s)"
proof -
  obtain k s1 where p: "process_items now items (0, s) = (k, s1)"
    by (cases "process_items now items (0, s)")
  have b: "history_bounded s1"
    using process_items_bounded [OF assms, of now items 0] p by simp
  then have "history_bounded (update_statistics now s1)"
    by (simp add: history_bounded_def update_statistics_def)
  then have "history_bounded (cleanup_caches now (update_statistics now s1))"
    unfolding cleanup_caches_def Let_def by (rule remove_symbols_bounded)
  with b p \<open>history_bounded (update_statistics now s1)\<close> show ?thesis
    by (simp add: update_data_def Let_def)
qed

lemma funding_rate_item:
  assumes "- 1000 < r" and "r < 1000"
  shows "validate_item (Symbol_funding_rate symbol r)"
    and "extract_rate (Symbol_funding_rate symbol r) = Some (symbol, r)"
  using assms by (simp_all add: validate_item_def)

lemma process_items_fifo:
  assumes "should_process_symbol symbol" and "0 < window_size s"
    and "\<forall>r\<in>set rs. - 1000 < r \<and> r < 1000" and "rs \<noteq> []"
  shows "rate_history (snd (process_items now (map (Symbol_funding_rate symbol) rs) (k, s))) symbol
       = Some (iloc_last (window_size s)
                 ((case rate_history s symbol of None \<Rightarrow> [] | Some series \<Rightarrow> series)
                    @ map (\<lambda>r. (now, r)) rs))"
  using assms(2-4)
proof (induction rs arbitrary: s k)
  case Nil
  then show ?case by simp
next
  case (Cons r rs)
  let ?item = "Symbol_funding_rate symbol r"
  let ?old = "case rate_history s symbol of None \<Rightarrow> [] | Some series \<Rightarrow> series"
  have r: "- 1000 < r" "r < 1000" using Cons.prems(2) by simp_all
  note a = funding_rate_item [OF r, of symbol] assms(1)
  obtain s' where p: "process_single_item now ?item s = (True, s')"
    using process_single_item_accepted [OF a, of now s] by simp
  have h: "rate_history s' symbol = Some (iloc_last (window_size s) (?old @ [(now, r)]))"
    using process_single_item_fifo [OF a Cons.prems(1), of now] p by simp
  have w: "window_size s' = window_size s"
    using process_single_item_window [of now ?item s] p by simp
  show ?case
  proof (cases "rs = []")
    case True
    then show ?thesis using p h by simp
  next
    case False
    have rs: "\<forall>r\<in>set rs. - 1000 < r \<and> r < 1000" using Cons.prems(2) by simp
    have w': "0 < window_size s'" using w Cons.prems(1) by simp
    from Cons.IH [OF w' rs False, of "k + 1"] p h w
    show ?thesis by (simp add: iloc_last_append [OF Cons.prems(1)])
  qed
qed

lemma iloc_last_overflow:
  assumes "0 < n" and "n < length ys"
  shows "length (iloc_last n (xs @ ys)) = n"
    and "iloc_last n (xs @ ys) = drop (length ys - n) ys"
proof -
  have e: "length xs + length ys - n - length xs = length ys - n" by arith
  have l: "length xs \<le> length xs + length ys - n" using assms by arith
  show "length (iloc_last n (xs @ ys)) = n" using assms by (simp add: iloc_last_def)
  show "iloc_last n (xs @ ys) = drop (length ys - n) ys"
    using assms l by (simp add: iloc_last_def e)
qed

lemma updated_entry_unique:
  assumes "distinct (map fst al)" and "(k, v') \<in> set (AList.update k v al)"
  shows "v' = v"
proof -
  have d: "distinct (map fst (AList.update k v al))" using assms(1) by (simp add: distinct_update)
  have "map_of (AList.update k v al) k = Some v'"
    using d assms(2) by simp
  then show ?thesis by (simp add: update_conv')
qed

lemma process_single_item_last_seen:
  assumes "validate_item item" and "extract_rate item = Some (symbol, r)"
    and "should_process_symbol symbol"
  shows "symbol_last_seen (snd (process_single_item now item s))
       = AList.update symbol now (symbol_last_seen s)"
  by (simp add: process_single_item_accepted [OF assms] Let_def)

lemma remove_symbols_history:
  "symbol \<notin> set xs \<Longrightarrow> rate_history (fold remove_symbol xs s) symbol = rate_history s symbol"
  by (induction xs arbitrary: s) (simp_all add: remove_symbol_def)

lemma remove_symbols_last_seen_distinct:
  "distinct (map fst (symbol_last_seen s)) \<Longrightarrow>
   distinct (map fst (symbol_last_seen (fold remove_symbol xs s)))"
  by (induction xs arbitrary: s) (simp_all add: remove_symbol_def distinct_delete)

lemma cleanup_keeps_seen_now:
  assumes "distinct (map fst al)" and "symbol_last_seen s = AList.update symbol now al"
  shows "rate_history (cleanup_caches now s) symbol = rate_history s symbol"
proof -
  have "symbol \<notin> set (map fst (filter (\<lambda>(symbol, last_seen). now - last_seen > 72 * 3600)
      (symbol_last_seen s)))"
  proof
    assume "symbol \<in> set (map fst (filter (\<lambda>(symbol, last_seen). now - last_seen > 72 * 3600)
      (symbol_last_seen s)))"
    then obtain t where m: "(symbol, t) \<in> set (symbol_last_seen s)" and o: "now - t > 72 * 3600"
      by auto
    have "t = now" using updated_entry_unique [OF assms(1)] m unfolding assms(2) by blast
    with o show False by simp
  qed
  then show ?thesis
    unfolding cleanup_caches_def Let_def by (rule remove_symbols_history)
qed

lemma update_data_one_item:
  assumes a: "validate_item item" "extract_rate item = Some (symbol, r)"
      "should_process_symbol symbol"
    and w: "0 < window_size s" and d: "distinct (map fst (symbol_last_seen s))"
  shows "rate_history (update_data now [item] s) symbol
       = Some (iloc_last (window_size s)
           ((case rate_history s symbol of None \<Rightarrow> [] | Some series \<Rightarrow> series) @ [(now, r)]))"
    and "distinct (map fst (symbol_last_seen (update_data now [item] s)))"
proof -
  obtain s1 where p: "process_single_item now item s = (True, s1)"
    using process_single_item_accepted [OF a, of now s] by simp
  then have e: "s1 = snd (process_single_item now item s)" by simp
  let ?s1 = "snd (process_single_item now item s)"
  let ?s2 = "update_statistics now ?s1"
  have u: "update_data now [item] s
      = (if data_update_count ?s2 mod 100 = 0 then cleanup_caches now ?s2 else ?s2)"
    unfolding e [symmetric] by (simp add: update_data_def Let_def p)
  have h: "rate_history ?s1 symbol
      = Some (iloc_last (window_size s)
           ((case rate_history s symbol of None \<Rightarrow> [] | Some series \<Rightarrow> series) @ [(now, r)]))"
    using process_single_item_fifo [OF a w, of now] by simp
  have l: "symbol_last_seen ?s2 = AList.update symbol now (symbol_last_seen s)"
    using process_single_item_last_seen [OF a, of now s] by (simp add: update_statistics_def)
  have h2: "rate_history ?s2 = rate_history ?s1" by (simp add: update_statistics_def)
  have c: "rate_history (cleanup_caches now ?s2) symbol = rate_history ?s2 symbol"
    by (rule cleanup_keeps_seen_now [OF d l])
  show "rate_history (update_data now [item] s) symbol
       = Some (iloc_last (window_size s)
           ((case rate_history s symbol of None \<Rightarrow> [] | Some series \<Rightarrow> series) @ [(now, r)]))"
    unfolding u using h h2 c by simp
  have d2: "distinct (map fst (symbol_last_seen ?s2))"
    unfolding l using d by (simp add: distinct_update)
  have "distinct (map fst (symbol_last_seen (cleanup_caches now ?s2)))"
    unfolding cleanup_caches_def Let_def using d2 by (rule remove_symbols_last_seen_distinct)
  with d2 show "distinct (map fst (symbol_last_seen (update_data now [item] s)))"
    unfolding u by simp
qed

lemma update_data_feed_fifo:
  assumes "should_process_symbol symbol"
  shows "0 < window_size s \<Longrightarrow> distinct (map fst (symbol_last_seen s)) \<Longrightarrow>
    \<forall>(t, r)\<in>set feed. - 1000 < r \<and> r < 1000 \<Longrightarrow> feed \<noteq> [] \<Longrightarrow>
    rate_history (fold (\<lambda>(t, r). update_data t [Symbol_funding_rate symbol r]) feed s) symbol
      = Some (iloc_last (window_size s)
           ((case rate_history s symbol of None \<Rightarrow> [] | Some series \<Rightarrow> series) @ feed))"
proof (induction feed arbitrary: s)
  case Nil
  then show ?case by simp
next
  case (Cons p feed)
  obtain t r where p: "p = (t, r)" by (cases p)
  let ?item = "Symbol_funding_rate symbol r"
  let ?old = "case rate_history s symbol of None \<Rightarrow> [] | Some series \<Rightarrow> series"
  let ?s1 = "update_data t [?item] s"
  have r: "- 1000 < r" "r < 1000" using Cons.prems(3) p by simp_all
  note a = funding_rate_item [OF r, of symbol] assms
  have h: "rate_history ?s1 symbol = Some (iloc_last (window_size s) (?old @ [(t, r)]))"
    by (rule update_data_one_item(1) [OF a Cons.prems(1,2)])
  have d: "distinct (map fst (symbol_last_seen ?s1))"
    by (rule update_data_one_item(2) [OF a Cons.prems(1,2)])
  have w: "window_size ?s1 = window_size s" by (rule update_data_window)
  show ?case
  proof (cases "feed = []")
    case True
    then show ?thesis using h p by simp
  next
    case False
    have w': "0 < window_size ?s1" using w Cons.prems(1) by simp
    have f: "\<forall>(t, r)\<in>set feed. - 1000 < r \<and> r < 1000" using Cons.prems(3) by simp
    from Cons.IH [OF w' d f False] h w p
    show ?thesis by (simp add: iloc_last_append [OF Cons.prems(1)])
  qed
qed

text \<open>
  C6. With a positive window size \<open>W\<close>: if no history is longer than \<open>W\<close>
  before \<open>update_data\<close>, none is after it, and \<open>W\<close> is unchanged. An accepted
  item leaves its symbol with the last \<open>W\<close> points of the old history followed
  by the new point, so the oldest points go first. After the ingest loop has
  taken more than \<open>W\<close> accepted points of one symbol, its history has exactly
  \<open>W\<close> points, the last \<open>W\<close> of them in order; and so it has after more than
  \<open>W\<close> calls of \<open>update_data\<close>, each with one accepted point of the symbol at
  its own time, inactivity cleanup included (the keys of \<open>symbol_last_seen\<close>
  being distinct, as those of a dictionary are).
\<close>

theorem history_never_exceeds_window:
  assumes "0 < window_size s" and "history_bounded s"
  shows "history_bounded (update_data now items s)
       \<and> window_size (update_data now items s) = window_size s
       \<and> (\<forall>item symbol r.
             validate_item item \<and> extract_rate item = Some (symbol, r)
             \<and> should_process_symbol symbol \<longrightarrow>
             rate_history (snd (process_single_item now item s)) symbol
               = Some (iloc_last (window_size s)
                   ((case rate_history s symbol of None \<Rightarrow> [] | Some series \<Rightarrow> series)
                      @ [(now, r)])))
       \<and> (\<forall>symbol rs k.
             should_process_symbol symbol \<and> (\<forall>r\<in>set rs. - 1000 < r \<and> r < 1000)
             \<and> window_size s < length rs \<longrightarrow>
             (\<exists>kept.
                rate_history (snd (process_items now (map (Symbol_funding_rate symbol) rs) (k, s)))
                  symbol = Some kept
                \<and> length kept = window_size s
                \<and> kept = drop (length rs - window_size s) (map (\<lambda>r. (now, r)) rs)))
       \<and> (\<forall>symbol feed.
             distinct (map fst (symbol_last_seen s)) \<and> should_process_symbol symbol
             \<and> (\<forall>(t, r)\<in>set feed. - 1000 < r \<and> r < 1000)
             \<and> window_size s < length feed \<longrightarrow>
             (\<exists>kept.
                rate_history
                  (fold (\<lambda>(t, r). update_data t [Symbol_funding_rate symbol r]) feed s) symbol
                  = Some kept
                \<and> length kept = window_size s
                \<and> kept = drop (length feed - window_size s) feed))"
proof (intro conjI allI impI)
  show "history_bounded (update_data now items s)"
    using assms by (rule update_data_bounded)
  show "window_size (update_data now items s) = window_size s"
    by (rule update_data_window)
next
  fix item symbol r
  assume "validate_item item \<and> extract_rate item = Some (symbol, r) \<and> should_process_symbol symbol"
  then show "rate_history (snd (process_single_item now item s)) symbol
      = Some (iloc_last (window_size s)
          ((case rate_history s symbol of None \<Rightarrow> [] | Some series \<Rightarrow> series) @ [(now, r)]))"
    using process_single_item_fifo [of item symbol r s now] assms(1) by simp
next
  fix symbol and rs :: "real list" and k :: nat
  assume a: "should_process_symbol symbol \<and> (\<forall>r\<in>set rs. - 1000 < r \<and> r < 1000)
      \<and> window_size s < length rs"
  then have ne: "rs \<noteq> []" by auto
  let ?old = "case rate_history s symbol of None \<Rightarrow> [] | Some series \<Rightarrow> series"
  let ?pts = "map (\<lambda>r. (now, r)) rs"
  have l: "window_size s < length ?pts" using a by simp
  have "rate_history (snd (process_items now (map (Symbol_funding_rate symbol) rs) (k, s))) symbol
      = Some (iloc_last (window_size s) (?old @ ?pts))"
    using process_items_fifo [of symbol s rs now k] a assms(1) ne by simp
  moreover have "length (iloc_last (window_size s) (?old @ ?pts)) = window_size s"
    by (rule iloc_last_overflow(1) [OF assms(1) l])
  moreover have "iloc_last (window_size s) (?old @ ?pts)
      = drop (length rs - window_size s) ?pts"
    using iloc_last_overflow(2) [OF assms(1) l, of ?old] by simp
  ultimately show "\<exists>kept.
      rate_history (snd (process_items now (map (Symbol_funding_rate symbol) rs) (k, s))) symbol
        = Some kept
      \<and> length kept = window_size s
      \<and> kept = drop (length rs - window_size s) (map (\<lambda>r. (now, r)) rs)"
    by simp
next
  fix symbol and feed :: "(real \<times> real) list"
  assume a: "distinct (map fst (symbol_last_seen s)) \<and> should_process_symbol symbol
      \<and> (\<forall>(t, r)\<in>set feed. - 1000 < r \<and> r < 1000) \<and> window_size s < length feed"
  then have ne: "feed \<noteq> []" by auto
  let ?old = "case rate_history s symbol of None \<Rightarrow> [] | Some series \<Rightarrow> series"
  have l: "window_size s < length feed" using a by simp
  have "rate_history (fold (\<lambda>(t, r). update_data t [Symbol_funding_rate symbol r]) feed s) symbol
      = Some (iloc_last (window_size s) (?old @ feed))"
    using update_data_feed_fifo [of symbol s feed] a assms(1) ne by blast
  moreover have "length (iloc_last (window_size s) (?old @ feed)) = window_size s"
    by (rule iloc_last_overflow(1) [OF assms(1) l])
  moreover have "iloc_last (window_size s) (?old @ feed) = drop (length feed - window_size s) feed"
    by (rule iloc_last_overflow(2) [OF assms(1) l])
  ultimately show "\<exists>kept.
      rate_history (fold (\<lambda>(t, r). update_data t [Symbol_funding_rate symbol r]) feed s) symbol
        = Some kept
      \<and> length kept = window_size s
      \<and> kept = drop (length feed - window_size s) feed"
    by simp
qed

theorem history_never_exceeds_window_witness:
  "0 < window_size core_init \<and> history_bounded core_init
   \<and> distinct (map fst (symbol_last_seen core_init)) \<and> should_process_symbol ''BTCUSDT''
   \<and> list_all (\<lambda>(t, r). - 1000 < r \<and> r < 1000) long_feed
   \<and> window_size core_init = 512 \<and> length long_feed = 600
   \<and> rate_history
        (fold (\<lambda>(t, r). update_data t [Symbol_funding_rate ''BTCUSDT'' r]) long_feed core_init)
        ''BTCUSDT'' = Some (drop 88 long_feed)
   \<and> length (drop 88 long_feed) = 512
   \<and> 0 < window_size (core_init\<lparr>window_size := 2\<rparr>)
   \<and> history_bounded (core_init\<lparr>window_size := 2\<rparr>)
   \<and> rate_history
        (snd (process_items 0 (map (Symbol_funding_rate ''BTCUSDT'') [1, 2, 3, 4])
                (0, core_init\<lparr>window_size := 2\<rparr>)))
        ''BTCUSDT'' = Some [(0, 3), (0, 4)]"
proof -
  have w: "0 < window_size core_init" and w512: "window_size core_init = 512"
    by (simp_all add: core_init_def MOVING_AVERAGE_WINDOW_def)
  have b: "history_bounded core_init" by (simp add: history_bounded_def core_init_def)
  have d: "distinct (map fst (symbol_last_seen core_init))" by (simp add: core_init_def)
  have r: "\<forall>(t, r)\<in>set long_feed. - 1000 < r \<and> r < 1000"
    by (auto simp: long_feed_def)
  have l: "length long_feed = 600" by (simp add: long_feed_def)
  have o: "window_size core_init < length long_feed" by (simp add: w512 l)
  note t = history_never_exceeds_window [OF w b, THEN conjunct2, THEN conjunct2, THEN conjunct2,
      THEN conjunct2, rule_format, of "''BTCUSDT''" long_feed]
  have "\<exists>kept. rate_history
        (fold (\<lambda>(t, r). update_data t [Symbol_funding_rate ''BTCUSDT'' r]) long_feed core_init)
        ''BTCUSDT'' = Some kept
      \<and> length kept = window_size core_init
      \<and> kept = drop (length long_feed - window_size core_init) long_feed"
    using t d btc_ok r o by blast
  then have big: "rate_history
        (fold (\<lambda>(t, r). update_data t [Symbol_funding_rate ''BTCUSDT'' r]) long_feed core_init)
        ''BTCUSDT'' = Some (drop 88 long_feed)
      \<and> length (drop 88 long_feed) = 512"
    by (auto simp: w512 l)
  let ?s = "core_init\<lparr>window_size := 2\<rparr>"
  have w2: "0 < window_size ?s" by simp
  have b2: "history_bounded ?s" by (simp add: history_bounded_def core_init_def)
  note u = history_never_exceeds_window [OF w2 b2, THEN conjunct2, THEN conjunct2, THEN conjunct2,
      THEN conjunct1, rule_format, of "''BTCUSDT''" "[1, 2, 3, 4]" 0 0]
  have "\<exists>kept. rate_history
        (snd (process_items 0 (map (Symbol_funding_rate ''BTCUSDT'') [1, 2, 3, 4]) (0, ?s)))
        ''BTCUSDT'' = Some kept
      \<and> length kept = window_size ?s
      \<and> kept = drop (length [1::real, 2, 3, 4] - window_size ?s) (map (\<lambda>r. (0, r)) [1, 2, 3, 4])"
    using u btc_ok by simp
  then have small: "rate_history
        (snd (process_items 0 (map (Symbol_funding_rate ''BTCUSDT'') [1, 2, 3, 4]) (0, ?s)))
        ''BTCUSDT'' = Some [(0, 3), (0, 4)]"
    by auto
  have r': "list_all (\<lambda>(t, r). - 1000 < r \<and> r < 1000) long_feed"
    using r by (simp add: list_all_iff)
  from w b d btc_ok r' w512 l big w2 b2 small show ?thesis by blast
qed

subsection \<open>The ranking\<close>

lemma argsort_insertion_ok: "argsort_ok argsort_insertion scores"
  unfolding argsort_ok_def argsort_insertion_def
  by simp

lemma argsort_ok_indices:
  assumes "argsort_ok argsort scores"
  shows "set (argsort scores) = {0..<length scores}"
    and "length (argsort scores) = length scores"
proof -
  have m: "mset (argsort scores) = mset [0..<length scores]"
    using assms by (simp add: argsort_ok_def)
  show "set (argsort scores) = {0..<length scores}"
    using mset_eq_setD [OF m] by simp
  show "length (argsort scores) = length scores"
    using mset_eq_length [OF m] by simp
qed

lemma argsort_ok_rows:
  assumes "argsort_ok argsort (map snd rd)"
  shows "mset (map (\<lambda>i. rd ! i) (argsort (map snd rd))) = mset rd"
proof -
  have m: "mset (argsort (map snd rd)) = mset [0..<length rd]"
    using assms by (simp add: argsort_ok_def)
  have "mset (map (\<lambda>i. rd ! i) (argsort (map snd rd)))
      = image_mset (\<lambda>i. rd ! i) (mset (argsort (map snd rd)))" by simp
  also have "\<dots> = image_mset (\<lambda>i. rd ! i) (mset [0..<length rd])" by (simp only: m)
  also have "\<dots> = mset (map (\<lambda>i. rd ! i) [0..<length rd])" by simp
  also have "\<dots> = mset rd" by (simp add: map_nth)
  finally show ?thesis .
qed

lemma sorted_rev_split:
  assumes "sorted xs"
  shows "sorted (rev (take k (rev xs)))"
    and "\<forall>r\<in>set (drop k (rev xs)). \<forall>t\<in>set (take k (rev xs)). r \<le> t"
proof -
  have e: "rev (take k (rev xs)) = drop (length xs - k) xs"
    by (simp add: take_rev)
  show "sorted (rev (take k (rev xs)))"
    unfolding e using assms by (rule sorted_wrt_drop)
  have "rev (drop k (rev xs)) @ rev (take k (rev xs)) = rev (take k (rev xs) @ drop k (rev xs))"
    by (simp only: rev_append)
  also have "\<dots> = xs" by (simp only: append_take_drop_id rev_rev_ident)
  finally have "sorted (rev (drop k (rev xs)) @ rev (take k (rev xs)))"
    using assms by (simp only:)
  then show "\<forall>r\<in>set (drop k (rev xs)). \<forall>t\<in>set (take k (rev xs)). r \<le> t"
    by (auto simp: sorted_append)
qed

lemma calculate_current_zscore_top5 [simp]:
  "calculate_current_zscore (s\<lparr>top5_symbols := xs, top5_version := v\<rparr>) symbol
     = calculate_current_zscore s symbol"
  by (simp add: calculate_current_zscore_def)

lemma symbol_score_top5 [simp]:
  "symbol_score now (s\<lparr>top5_symbols := xs, top5_version := v\<rparr>) symbol = symbol_score now s symbol"
  by (simp add: symbol_score_def split: option.splits)

lemma ranking_data_top5 [simp]:
  "ranking_data now (s\<lparr>top5_symbols := xs, top5_version := v\<rparr>) = ranking_data now s"
  by (simp add: ranking_data_def)

lemma update_top5_ranking_empty:
  "ranking_data now s = [] \<Longrightarrow> update_top5_ranking argsort now s = s"
  by (simp add: update_top5_ranking_def)

lemma update_top5_ranking_ok:
  assumes ok: "argsort_ok argsort (map snd (ranking_data now s))"
    and ne: "ranking_data now s \<noteq> []"
  shows "update_top5_ranking argsort now s =
    (let rows = map (\<lambda>i. ranking_data now s ! i)
                  (take TOP_RANKING_COUNT (rev (argsort (map snd (ranking_data now s)))))
     in if map fst rows \<noteq> top5_symbols s
        then s\<lparr>top5_symbols := map fst rows, top5_version := top5_version s + 1\<rparr>
        else s)"
proof -
  let ?rd = "ranking_data now s"
  let ?idx = "argsort (map snd ?rd)"
  let ?chosen = "take (min TOP_RANKING_COUNT (length (rev ?idx))) (rev ?idx)"
  have c: "?chosen = take TOP_RANKING_COUNT (rev ?idx)" by (simp add: min_def)
  have i: "set ?idx = {0..<length ?rd}" using argsort_ok_indices(1) [OF ok] by simp
  have b: "\<forall>i\<in>set (take TOP_RANKING_COUNT (rev ?idx)). i < length ?rd"
    using i by (auto dest: in_set_takeD)
  then have la: "list_all (\<lambda>i. i < length (map fst ?rd)) (take TOP_RANKING_COUNT (rev ?idx))"
    by (simp add: list_all_iff)
  have m: "map (\<lambda>i. map fst ?rd ! i) (take TOP_RANKING_COUNT (rev ?idx))
      = map fst (map (\<lambda>i. ?rd ! i) (take TOP_RANKING_COUNT (rev ?idx)))"
    using b by simp
  show ?thesis
    using ne la unfolding update_top5_ranking_def Let_def c m by simp
qed

lemma ranking_data_positive:
  "(symbol, score) \<in> set (ranking_data now s) \<Longrightarrow> 0 < score"
  by (auto simp: ranking_data_def)

text \<open>
  C7. Let \<open>argsort\<close> list every index of the score array once, by ascending
  score. When some symbol has a positive score, the recomputation takes the
  first \<open>K = TOP_RANKING_COUNT\<close> rows by descending score (all of them when
  there are fewer): the rows taken are in descending order of score, no row
  left out has a higher score than a row taken, and the published list is
  replaced, by a new list object, exactly when the symbols of the rows taken
  differ from it. A recomputation that leaves the list equal leaves the whole
  state as it was, and a second recomputation from the same inputs changes
  nothing. Ties come in the order \<open>argsort\<close> gives them, the same each time.
\<close>

theorem ranking_sorted_truncated_published_on_change:
  assumes "argsort_ok argsort (map snd (ranking_data now s))"
  shows "(ranking_data now s \<noteq> [] \<longrightarrow>
            (\<exists>rows rest.
               mset rows + mset rest = mset (ranking_data now s)
               \<and> length rows = min TOP_RANKING_COUNT (length (ranking_data now s))
               \<and> sorted (rev (map snd rows))
               \<and> (\<forall>r\<in>set rest. \<forall>t\<in>set rows. snd r \<le> snd t)
               \<and> update_top5_ranking argsort now s =
                    (if map fst rows \<noteq> top5_symbols s
                     then s\<lparr>top5_symbols := map fst rows, top5_version := top5_version s + 1\<rparr>
                     else s)))
       \<and> (top5_symbols (update_top5_ranking argsort now s) = top5_symbols s \<longrightarrow>
            update_top5_ranking argsort now s = s)
       \<and> update_top5_ranking argsort now (update_top5_ranking argsort now s)
           = update_top5_ranking argsort now s"
proof -
  let ?rd = "ranking_data now s"
  let ?idx = "rev (argsort (map snd ?rd))"
  let ?rows = "map (\<lambda>i. ?rd ! i) (take TOP_RANKING_COUNT ?idx)"
  let ?rest = "map (\<lambda>i. ?rd ! i) (drop TOP_RANKING_COUNT ?idx)"
  let ?new = "s\<lparr>top5_symbols := map fst ?rows, top5_version := top5_version s + 1\<rparr>"
  have i: "set (argsort (map snd ?rd)) = {0..<length ?rd}"
    and l: "length (argsort (map snd ?rd)) = length ?rd"
    using argsort_ok_indices [OF assms] by simp_all
  have srt: "sorted (map (\<lambda>i. map snd ?rd ! i) (argsort (map snd ?rd)))"
    using assms by (simp add: argsort_ok_def)
  have sc: "map (\<lambda>i. map snd ?rd ! i) (argsort (map snd ?rd))
      = map snd (map (\<lambda>i. ?rd ! i) (argsort (map snd ?rd)))"
    using i by simp
  let ?sorted = "map snd (map (\<lambda>i. ?rd ! i) (argsort (map snd ?rd)))"
  have ss: "sorted ?sorted" using srt sc by simp
  have tk: "map snd ?rows = take TOP_RANKING_COUNT (rev ?sorted)"
    by (simp add: rev_map take_map)
  have dr: "map snd ?rest = drop TOP_RANKING_COUNT (rev ?sorted)"
    by (simp add: rev_map drop_map)
  have p1: "mset ?rows + mset ?rest = mset ?rd"
  proof -
    have "mset ?rows + mset ?rest = mset (map (\<lambda>i. ?rd ! i) ?idx)"
      by (metis append_take_drop_id map_append mset_append)
    also have "\<dots> = mset (map (\<lambda>i. ?rd ! i) (argsort (map snd ?rd)))"
      by (simp add: rev_map [symmetric])
    also have "\<dots> = mset ?rd" using assms by (rule argsort_ok_rows)
    finally show ?thesis .
  qed
  have p2: "length ?rows = min TOP_RANKING_COUNT (length ?rd)" using l by simp
  have p3: "sorted (rev (map snd ?rows))"
    unfolding tk using ss by (rule sorted_rev_split(1))
  have p4: "\<forall>r\<in>set ?rest. \<forall>t\<in>set ?rows. snd r \<le> snd t"
  proof (intro ballI)
    fix r t
    assume "r \<in> set ?rest" and "t \<in> set ?rows"
    then have "snd r \<in> set (map snd ?rest)" and "snd t \<in> set (map snd ?rows)"
      by (simp_all only: set_map image_eqI)
    then show "snd r \<le> snd t"
      unfolding tk dr using sorted_rev_split(2) [OF ss, of TOP_RANKING_COUNT] by blast
  qed
  have u: "ranking_data now s \<noteq> [] \<Longrightarrow> update_top5_ranking argsort now s =
      (if map fst ?rows \<noteq> top5_symbols s then ?new else s)"
    using update_top5_ranking_ok [OF assms] by (simp add: Let_def)
  have a: "ranking_data now s \<noteq> [] \<longrightarrow>
            (\<exists>rows rest.
               mset rows + mset rest = mset (ranking_data now s)
               \<and> length rows = min TOP_RANKING_COUNT (length (ranking_data now s))
               \<and> sorted (rev (map snd rows))
               \<and> (\<forall>r\<in>set rest. \<forall>t\<in>set rows. snd r \<le> snd t)
               \<and> update_top5_ranking argsort now s =
                    (if map fst rows \<noteq> top5_symbols s
                     then s\<lparr>top5_symbols := map fst rows, top5_version := top5_version s + 1\<rparr>
                     else s))"
    using p1 p2 p3 p4 u by blast
  have b: "top5_symbols (update_top5_ranking argsort now s) = top5_symbols s \<longrightarrow>
      update_top5_ranking argsort now s = s"
  proof (cases "ranking_data now s = []")
    case True
    then show ?thesis by (simp add: update_top5_ranking_empty)
  next
    case False
    show ?thesis unfolding u [OF False] by simp
  qed
  have c: "update_top5_ranking argsort now (update_top5_ranking argsort now s)
      = update_top5_ranking argsort now s"
  proof (cases "ranking_data now s = []")
    case True
    then show ?thesis by (simp add: update_top5_ranking_empty)
  next
    case False
    show ?thesis
    proof (cases "map fst ?rows = top5_symbols s")
      case True
      then show ?thesis using u [OF False] by simp
    next
      case ch: False
      have e: "update_top5_ranking argsort now s = ?new" using u [OF False] ch by simp
      have rd': "ranking_data now ?new = ?rd" by simp
      have ok': "argsort_ok argsort (map snd (ranking_data now ?new))"
        unfolding rd' by (rule assms)
      have ne': "ranking_data now ?new \<noteq> []" unfolding rd' by (rule False)
      show ?thesis
        unfolding e using update_top5_ranking_ok [OF ok' ne'] by (simp add: Let_def)
    qed
  qed
  from a b c show ?thesis by blast
qed

lemma two_champions_ranking:
  "ranking_data 20 two_champions_core = [(''BTCUSDT'', 1), (''ETHUSDT'', 3)]"
  by (simp add: ranking_data_def symbol_score_def two_champions_core_def core_init_def
      fresh_champion_def)

lemma two_champions_top5:
  "top5_symbols (update_top5_ranking argsort_insertion 20 two_champions_core)
     = [''ETHUSDT'', ''BTCUSDT'']"
proof -
  have e: "top5_symbols two_champions_core = []"
    by (simp add: two_champions_core_def core_init_def)
  show ?thesis
    by (simp add: update_top5_ranking_def two_champions_ranking Let_def argsort_insertion_def
        TOP_RANKING_COUNT_def e)
qed

theorem ranking_sorted_truncated_published_on_change_witness:
  "argsort_ok argsort_insertion (map snd (ranking_data 20 two_champions_core))
   \<and> ranking_data 20 two_champions_core = [(''BTCUSDT'', 1), (''ETHUSDT'', 3)]
   \<and> top5_symbols (update_top5_ranking argsort_insertion 20 two_champions_core)
       = [''ETHUSDT'', ''BTCUSDT'']
   \<and> update_top5_ranking argsort_insertion 20
        (update_top5_ranking argsort_insertion 20 two_champions_core)
       = update_top5_ranking argsort_insertion 20 two_champions_core"
proof -
  have ok: "argsort_ok argsort_insertion (map snd (ranking_data 20 two_champions_core))"
    by (rule argsort_insertion_ok)
  note t = ranking_sorted_truncated_published_on_change [OF ok]
  from t ok two_champions_ranking two_champions_top5 show ?thesis by blast
qed

subsection \<open>Runs of one symbol\<close>

lemma calculate_volatility_scored:
  assumes "rate_history s symbol = Some series" and "3 \<le> length series"
    and "pd_mean (butlast (map snd series)) = Some m"
    and "pd_std (butlast (map snd series)) = Some sd"
    and "\<not> sd < 1 / 10 ^ 10"
  shows "calculate_volatility symbol old new now s =
     (let info = (case champion_records s symbol of
                    None \<Rightarrow> fresh_champion m sd old new now
                  | Some c \<Rightarrow>
                      if now - champion_timestamp c > champion_ttl s
                      then fresh_champion m sd old new now
                      else if \<bar>(new - m) / sd\<bar> > max_volatility c
                      then fresh_champion m sd old new now
                      else c\<lparr>champion_age_hours := (now - champion_timestamp c) / 3600\<rparr>)
      in s\<lparr>champion_records := (champion_records s)(symbol \<mapsto> info),
           volatility_data := (volatility_data s)(symbol \<mapsto> cached_volatility info now)\<rparr>)"
proof -
  have "\<not> length series - Suc 0 < 2" using assms(2) by arith
  with assms show ?thesis
    by (simp add: calculate_volatility_def Let_def fresh_champion_def cached_volatility_def
        split: option.splits)
qed

lemma update_data_btc:
  assumes "- 1000 < r" and "r < 1000" and "(data_update_count s + 1) mod 100 \<noteq> 0"
  shows "update_data now [btc r] s =
     update_statistics now
      (let old = (case map_of (current_rates s) ''BTCUSDT'' of None \<Rightarrow> r | Some x \<Rightarrow> x);
           appended = (case rate_history s ''BTCUSDT'' of
                         None \<Rightarrow> [(now, r)] | Some series \<Rightarrow> series @ [(now, r)]);
           kept = (if length appended > window_size s
                   then iloc_last (window_size s) appended else appended);
           s3 = s\<lparr>current_rates := AList.update ''BTCUSDT'' r (current_rates s),
                  rate_history := (rate_history s)(''BTCUSDT'' \<mapsto> kept),
                  symbol_last_seen := AList.update ''BTCUSDT'' now (symbol_last_seen s)\<rparr>
       in if \<bar>r - old\<bar> > 1 / 10 ^ 9 then calculate_volatility ''BTCUSDT'' old r now s3 else s3)"
proof -
  note a = funding_rate_item [OF assms(1,2), of "''BTCUSDT''"] btc_ok
  show ?thesis
    using assms(3)
    by (simp add: btc_def update_data_def process_single_item_accepted [OF a]
        update_statistics_def Let_def)
qed

lemma btc_core_fields [simp]:
  "current_rates (btc_core rate h n t champ published) = [(''BTCUSDT'', rate)]"
  "rate_history (btc_core rate h n t champ published) = [''BTCUSDT'' \<mapsto> h]"
  "champion_records (btc_core rate h n t champ published) ''BTCUSDT'' = map_option fst champ"
  "volatility_data (btc_core rate h n t champ published) ''BTCUSDT''
     = map_option (\<lambda>(c, tv). cached_volatility c tv) champ"
  "champion_ttl (btc_core rate h n t champ published) = 900"
  "top5_symbols (btc_core rate h n t champ published) = fst published"
  "top5_version (btc_core rate h n t champ published) = snd published"
  "window_size (btc_core rate h n t champ published) = 512"
  "data_update_count (btc_core rate h n t champ published) = n"
  by (simp_all add: btc_core_def core_init_def MOVING_AVERAGE_WINDOW_def split: option.splits)

lemma first_btc_update:
  assumes "- 1000 < r" and "r < 1000"
  shows "update_data t [btc r] core_init = btc_core r [(t, r)] 1 t None ([], 0)"
proof -
  have c: "(data_update_count core_init + 1) mod 100 \<noteq> 0" by (simp add: core_init_def)
  show ?thesis
    unfolding update_data_btc [OF assms c]
    by (simp add: btc_core_def core_init_def update_statistics_def Let_def
        MOVING_AVERAGE_WINDOW_def)
qed

lemma quiet_btc_update:
  assumes "- 1000 < r" and "r < 1000" and "(n + 1) mod 100 \<noteq> 0" and "length h < 512"
    and "\<not> \<bar>r - rate\<bar> > 1 / 10 ^ 9
         \<or> length h < 2 \<or> pd_std (map snd h) = None
         \<or> (\<exists>sd. pd_std (map snd h) = Some sd \<and> sd < 1 / 10 ^ 10)"
  shows "update_data t [btc r] (btc_core rate h n t0 champ published)
       = btc_core r (h @ [(t, r)]) (n + 1) t champ published"
proof -
  let ?s = "btc_core rate h n t0 champ published"
  let ?s3 = "?s\<lparr>current_rates := AList.update ''BTCUSDT'' r (current_rates ?s),
                rate_history := (rate_history ?s)(''BTCUSDT'' \<mapsto> h @ [(t, r)]),
                symbol_last_seen := AList.update ''BTCUSDT'' t (symbol_last_seen ?s)\<rparr>"
  have c: "(data_update_count ?s + 1) mod 100 \<noteq> 0" using assms(3) by simp
  have q: "\<bar>r - rate\<bar> > 1 / 10 ^ 9 \<Longrightarrow> calculate_volatility ''BTCUSDT'' rate r t ?s3 = ?s3"
  proof (rule no_score_unchanged)
    assume "\<bar>r - rate\<bar> > 1 / 10 ^ 9"
    with assms(5) show "no_score ?s3 ''BTCUSDT''"
      by (auto simp: no_score_def map_butlast [symmetric])
  qed
  have e: "update_statistics t ?s3 = btc_core r (h @ [(t, r)]) (n + 1) t champ published"
    by (simp add: btc_core_def core_init_def update_statistics_def)
  show ?thesis
    unfolding update_data_btc [OF assms(1,2) c]
    using assms(4) q e by (simp add: Let_def)
qed

lemma scored_btc_update:
  assumes "- 1000 < r" and "r < 1000" and "(n + 1) mod 100 \<noteq> 0" and "length h < 512"
    and "2 \<le> length h" and "\<bar>r - rate\<bar> > 1 / 10 ^ 9"
    and "pd_mean (map snd h) = Some m" and "pd_std (map snd h) = Some sd"
    and "\<not> sd < 1 / 10 ^ 10"
  shows "update_data t [btc r] (btc_core rate h n t0 champ published)
       = btc_core r (h @ [(t, r)]) (n + 1) t
           (Some (case champ of
                    None \<Rightarrow> fresh_champion m sd rate r t
                  | Some (c, tv) \<Rightarrow>
                      if t - champion_timestamp c > 900 then fresh_champion m sd rate r t
                      else if \<bar>(r - m) / sd\<bar> > max_volatility c
                      then fresh_champion m sd rate r t
                      else c\<lparr>champion_age_hours := (t - champion_timestamp c) / 3600\<rparr>, t))
           published"
proof -
  let ?s = "btc_core rate h n t0 champ published"
  let ?s3 = "?s\<lparr>current_rates := AList.update ''BTCUSDT'' r (current_rates ?s),
                rate_history := (rate_history ?s)(''BTCUSDT'' \<mapsto> h @ [(t, r)]),
                symbol_last_seen := AList.update ''BTCUSDT'' t (symbol_last_seen ?s)\<rparr>"
  have c: "(data_update_count ?s + 1) mod 100 \<noteq> 0" using assms(3) by simp
  have hs: "rate_history ?s3 ''BTCUSDT'' = Some (h @ [(t, r)])" by simp
  have l: "3 \<le> length (h @ [(t, r)])" using assms(5) by simp
  have m: "pd_mean (butlast (map snd (h @ [(t, r)]))) = Some m" using assms(7) by simp
  have d: "pd_std (butlast (map snd (h @ [(t, r)]))) = Some sd" using assms(8) by simp
  note cv = calculate_volatility_scored [OF hs l m d assms(9), of rate r t]
  have a: "update_data t [btc r] ?s
      = update_statistics t (calculate_volatility ''BTCUSDT'' rate r t ?s3)"
    unfolding update_data_btc [OF assms(1,2) c]
    using assms(4,6) by (simp add: Let_def)
  show ?thesis
    unfolding a cv
    by (cases champ)
       (auto simp: Let_def btc_core_def core_init_def update_statistics_def
          MOVING_AVERAGE_WINDOW_def)
qed

lemma btc_ranking_data:
  "ranking_data now (btc_core rate h n t champ published) =
     (if 0 < symbol_score now (btc_core rate h n t champ published) ''BTCUSDT''
      then [(''BTCUSDT'', symbol_score now (btc_core rate h n t champ published) ''BTCUSDT'')]
      else [])"
  by (simp add: ranking_data_def)

lemma btc_rank_positive:
  assumes "0 < symbol_score now (btc_core rate h n t champ published) ''BTCUSDT''"
  shows "update_top5_ranking argsort_insertion now (btc_core rate h n t champ published) =
     (if [''BTCUSDT''] \<noteq> fst published
      then btc_core rate h n t champ ([''BTCUSDT''], snd published + 1)
      else btc_core rate h n t champ published)"
proof -
  have e: "(btc_core rate h n t champ published)
             \<lparr>top5_symbols := [''BTCUSDT''], top5_version := Suc (snd published)\<rparr>
           = btc_core rate h n t champ ([''BTCUSDT''], snd published + 1)"
    by (simp add: btc_core_def)
  show ?thesis
    using assms
    by (simp add: update_top5_ranking_def btc_ranking_data Let_def argsort_insertion_def
        TOP_RANKING_COUNT_def e)
qed

lemma btc_rank_nonpositive:
  assumes "\<not> 0 < symbol_score now (btc_core rate h n t champ published) ''BTCUSDT''"
  shows "update_top5_ranking argsort_insertion now (btc_core rate h n t champ published)
       = btc_core rate h n t champ published"
  using assms by (simp add: update_top5_ranking_def btc_ranking_data)

lemma pd_0002: "pd_mean [0, 0, 0, 2] = Some (1 / 2)" "pd_std [0, 0, 0, 2] = Some 1"
  by (simp_all add: pd_mean_def pd_std_def power2_eq_square)

lemma pd_000: "pd_std [0, 0, 0] = Some 0"
  by (simp add: pd_mean_def pd_std_def)

lemma pd_spike: "pd_mean [0, 0, 0, 2, 17 / 2] = Some (21 / 10)"
  "pd_std [0, 0, 0, 2, 17 / 2] = Some (sqrt (271 / 20))"
proof -
  show m: "pd_mean [0, 0, 0, 2, 17 / 2] = Some (21 / 10)" by (simp add: pd_mean_def)
  have "sum_list (map (\<lambda>x. (x - 21 / 10)\<^sup>2) [0, 0, 0, 2, 17 / 2])
          / real (length [0::real, 0, 0, 2, 17 / 2] - 1) = (271 / 20 :: real)"
    by (simp add: power2_eq_square)
  then show "pd_std [0, 0, 0, 2, 17 / 2] = Some (sqrt (271 / 20))"
    unfolding pd_std_def m by (simp only: option.case list.size) simp
qed

lemma sqrt_spike: "1 \<le> sqrt (271 / 20)" "\<not> sqrt (271 / 20) < 1 / 10 ^ 10"
proof -
  show a: "1 \<le> sqrt (271 / 20)" by simp
  have "(1::real) / 10 ^ 10 < 1" by simp
  with a show "\<not> sqrt (271 / 20) < 1 / 10 ^ 10" by linarith
qed

lemma spike_core_eq:
  "spike_core =
     btc_core (17 / 2) [(0, 0), (1, 0), (2, 0), (3, 2), (4, 17 / 2)] 5 4
       (Some (fresh_champion (1 / 2) 1 2 (17 / 2) 4, 4)) ([], 0)"
proof -
  have s1: "update_data 0 [btc 0] core_init = btc_core 0 [(0, 0)] 1 0 None ([], 0)"
    by (rule first_btc_update) simp_all
  have s2: "update_data 1 [btc 0] (btc_core 0 [(0, 0)] 1 0 None ([], 0))
      = btc_core 0 [(0, 0), (1, 0)] 2 1 None ([], 0)"
    using quiet_btc_update [of 0 1 "[(0, 0)]" 0 1 0 None "([], 0)"]
    by (simp add: numeral_2_eq_2 [symmetric])
  have s3: "update_data 2 [btc 0] (btc_core 0 [(0, 0), (1, 0)] 2 1 None ([], 0))
      = btc_core 0 [(0, 0), (1, 0), (2, 0)] 3 2 None ([], 0)"
    using quiet_btc_update [of 0 2 "[(0, 0), (1, 0)]" 0 2 1 None "([], 0)"] by simp
  have s4: "update_data 3 [btc 2] (btc_core 0 [(0, 0), (1, 0), (2, 0)] 3 2 None ([], 0))
      = btc_core 2 [(0, 0), (1, 0), (2, 0), (3, 2)] 4 3 None ([], 0)"
    using quiet_btc_update [of 2 3 "[(0, 0), (1, 0), (2, 0)]" 0 3 2 None "([], 0)"]
    by (simp add: pd_000)
  have s5: "update_data 4 [btc (17 / 2)]
        (btc_core 2 [(0, 0), (1, 0), (2, 0), (3, 2)] 4 3 None ([], 0))
      = btc_core (17 / 2) [(0, 0), (1, 0), (2, 0), (3, 2), (4, 17 / 2)] 5 4
          (Some (fresh_champion (1 / 2) 1 2 (17 / 2) 4, 4)) ([], 0)"
    using scored_btc_update [of "17 / 2" 4 "[(0, 0), (1, 0), (2, 0), (3, 2)]" 2 "1 / 2" 1
        4 3 None "([], 0)"]
    by (simp add: pd_0002)
  have "spike_core =
      update_data 4 [btc (17 / 2)] (update_data 3 [btc 2] (update_data 2 [btc 0]
        (update_data 1 [btc 0] (update_data 0 [btc 0] core_init))))"
    by (simp add: spike_core_def spike_feed_def)
  then show ?thesis by (simp only: s1 s2 s3 s4 s5)
qed

subsection \<open>The ranking after a champion has expired\<close>

lemma spike_score: "symbol_score 5 spike_core ''BTCUSDT'' = 8"
  by (simp add: spike_core_eq symbol_score_def fresh_champion_def)

lemma spike_ranked:
  "update_top5_ranking argsort_insertion 5 spike_core =
     btc_core (17 / 2) [(0, 0), (1, 0), (2, 0), (3, 2), (4, 17 / 2)] 5 4
       (Some (fresh_champion (1 / 2) 1 2 (17 / 2) 4, 4)) ([''BTCUSDT''], 1)"
proof -
  have p: "0 < symbol_score 5 spike_core ''BTCUSDT''" by (simp add: spike_score)
  show ?thesis
    using btc_rank_positive [OF p [unfolded spike_core_eq]]
    by (simp add: spike_core_eq)
qed

lemma flat_core_eq:
  "flat_core =
     btc_core (21 / 10) [(0, 0), (1, 0), (2, 0), (3, 2), (4, 17 / 2), (1000, 21 / 10)] 6 1000
       (Some (fresh_champion (21 / 10) (sqrt (271 / 20)) (17 / 2) (21 / 10) 1000, 1000))
       ([''BTCUSDT''], 1)"
proof -
  have g: "\<not> sqrt (271 / 20) * 10000000000 < 1" using sqrt_spike(1) by linarith
  show ?thesis
  unfolding flat_core_def spike_ranked
  using g scored_btc_update [of "21 / 10" 5 "[(0, 0), (1, 0), (2, 0), (3, 2), (4, 17 / 2)]"
      "17 / 2" "21 / 10" "sqrt (271 / 20)" 1000 4
      "Some (fresh_champion (1 / 2) 1 2 (17 / 2) 4, 4)" "([''BTCUSDT''], 1)"]
  by (simp add: pd_spike sqrt_spike fresh_champion_def)
qed

lemma flat_score: "symbol_score 1001 flat_core ''BTCUSDT'' = 0"
  by (simp add: flat_core_eq symbol_score_def fresh_champion_def)

text \<open>
  C2 on the code. After the run of \<open>flat_core\<close> the published list holds
  BTCUSDT. Its champion of time 4 has expired at time 1000 and the update of
  that time has replaced it by one of score 0, so at time 1001 its score is 0
  and no symbol has a positive score. The recomputation of time 1001 then
  leaves the list as it was: BTCUSDT stays in it.
\<close>

theorem stale_ranking_survives_empty_recomputation:
  "top5_symbols flat_core = [''BTCUSDT'']
   \<and> symbol_score 1001 flat_core ''BTCUSDT'' = 0
   \<and> ranking_data 1001 flat_core = []
   \<and> top5_symbols (update_top5_ranking argsort_insertion 1001 flat_core) = [''BTCUSDT'']"
proof -
  have n: "\<not> 0 < symbol_score 1001 flat_core ''BTCUSDT''" by (simp add: flat_score)
  have r: "ranking_data 1001 flat_core = []"
    using n unfolding flat_core_eq by (simp add: btc_ranking_data)
  have t: "top5_symbols flat_core = [''BTCUSDT'']" by (simp add: flat_core_eq)
  have u: "update_top5_ranking argsort_insertion 1001 flat_core = flat_core"
    using r by (rule update_top5_ranking_empty)
  from flat_score r t u show ?thesis by simp
qed

lemma stale_core_eq:
  "stale_core =
     btc_core (17 / 2) [(0, 0), (1, 0), (2, 0), (3, 2), (4, 17 / 2), (5, 17 / 2)] 6 5
       (Some (fresh_champion (1 / 2) 1 2 (17 / 2) 4, 4)) ([], 0)"
  unfolding stale_core_def spike_core_eq
  using quiet_btc_update [of "17 / 2" 5 "[(0, 0), (1, 0), (2, 0), (3, 2), (4, 17 / 2)]"
      "17 / 2" 5 4 "Some (fresh_champion (1 / 2) 1 2 (17 / 2) 4, 4)" "([], 0)"]
  by simp

lemma stale_live:
  "calculate_current_zscore stale_core ''BTCUSDT'' = (32 / 5) / sqrt (271 / 20)"
proof -
  have h: "rate_history stale_core ''BTCUSDT''
      = Some [(0, 0), (1, 0), (2, 0), (3, 2), (4, 17 / 2), (5, 17 / 2)]"
    by (simp add: stale_core_eq)
  have l: "3 \<le> length [(0::real, 0::real), (1, 0), (2, 0), (3, 2), (4, 17 / 2), (5, 17 / 2)]"
    by simp
  have m: "pd_mean (butlast (map snd
        [(0::real, 0::real), (1, 0), (2, 0), (3, 2), (4, 17 / 2), (5, 17 / 2)])) = Some (21 / 10)"
    using pd_spike(1) by simp
  have d: "pd_std (butlast (map snd
        [(0::real, 0::real), (1, 0), (2, 0), (3, 2), (4, 17 / 2), (5, 17 / 2)]))
      = Some (sqrt (271 / 20))"
    using pd_spike(2) by simp
  have p: "0 < sqrt (271 / 20)" using sqrt_spike(1) by linarith
  have "calculate_current_zscore stale_core ''BTCUSDT''
      = \<bar>(last (map snd [(0::real, 0::real), (1, 0), (2, 0), (3, 2), (4, 17 / 2), (5, 17 / 2)])
           - 21 / 10) / sqrt (271 / 20)\<bar>"
    by (rule current_zscore_scored [OF h l m d sqrt_spike(2)])
  also have "\<dots> = \<bar>(32 / 5) / sqrt (271 / 20)\<bar>" by simp
  also have "\<dots> = (32 / 5) / sqrt (271 / 20)" using p by (simp only: abs_of_pos divide_pos_pos zero_less_numeral)
  finally show ?thesis .
qed

lemma stale_live_bounds:
  "0 < calculate_current_zscore stale_core ''BTCUSDT''"
  "calculate_current_zscore stale_core ''BTCUSDT'' < 8"
proof -
  have p: "0 < sqrt (271 / 20)" using sqrt_spike(1) by linarith
  show "0 < calculate_current_zscore stale_core ''BTCUSDT''"
    unfolding stale_live using p by simp
  have "(32 / 5) / sqrt (271 / 20) \<le> (32 / 5) / 1"
    using sqrt_spike(1) by (intro divide_left_mono) simp_all
  then show "calculate_current_zscore stale_core ''BTCUSDT'' < 8"
    unfolding stale_live by simp
qed

lemma stale_score:
  "symbol_score 1000 stale_core ''BTCUSDT'' = calculate_current_zscore stale_core ''BTCUSDT''"
proof -
  have "champion_records stale_core ''BTCUSDT'' = Some (fresh_champion (1 / 2) 1 2 (17 / 2) 4)"
    by (simp add: stale_core_eq)
  moreover have "champion_ttl stale_core = 900" by (simp add: stale_core_eq)
  ultimately show ?thesis by (simp add: symbol_score_def fresh_champion_def)
qed

lemma stale_ranked:
  "update_top5_ranking argsort_insertion 1000 stale_core =
     btc_core (17 / 2) [(0, 0), (1, 0), (2, 0), (3, 2), (4, 17 / 2), (5, 17 / 2)] 6 5
       (Some (fresh_champion (1 / 2) 1 2 (17 / 2) 4, 4)) ([''BTCUSDT''], 1)"
proof -
  have p: "0 < symbol_score 1000 stale_core ''BTCUSDT''"
    unfolding stale_score by (rule stale_live_bounds(1))
  show ?thesis
    using btc_rank_positive [OF p [unfolded stale_core_eq]]
    by (simp add: stale_core_eq)
qed

text \<open>
  C1, as the claim has it, fails on \<open>stale_core\<close> at time 1000. The champion
  of time 4 is older than the TTL, and the score used for the ranking is the
  live score, which is positive and below 8. The recomputation leaves the
  expired record in place, so no new champion is made; and the score read for
  display is 8, the cached score of the expired champion, not the live score.
\<close>

theorem expired_champion_not_renewed_by_ranking:
  "champion_records stale_core ''BTCUSDT'' = Some (fresh_champion (1 / 2) 1 2 (17 / 2) 4)
   \<and> champion_ttl stale_core < 1000 - champion_timestamp (fresh_champion (1 / 2) 1 2 (17 / 2) 4)
   \<and> ranking_data 1000 stale_core
       = [(''BTCUSDT'', calculate_current_zscore stale_core ''BTCUSDT'')]
   \<and> 0 < calculate_current_zscore stale_core ''BTCUSDT''
   \<and> calculate_current_zscore stale_core ''BTCUSDT'' < 8
   \<and> champion_records (update_top5_ranking argsort_insertion 1000 stale_core) ''BTCUSDT''
       = Some (fresh_champion (1 / 2) 1 2 (17 / 2) 4)
   \<and> map row_volatility (get_top5_data (update_top5_ranking argsort_insertion 1000 stale_core))
       = [8]"
proof -
  have c: "champion_records stale_core ''BTCUSDT'' = Some (fresh_champion (1 / 2) 1 2 (17 / 2) 4)"
    by (simp add: stale_core_eq)
  have t: "champion_ttl stale_core < 1000 - champion_timestamp (fresh_champion (1 / 2) 1 2 (17 / 2) 4)"
    by (simp add: stale_core_eq fresh_champion_def)
  have p: "0 < symbol_score 1000 stale_core ''BTCUSDT''"
    unfolding stale_score by (rule stale_live_bounds(1))
  have r: "ranking_data 1000 stale_core
      = [(''BTCUSDT'', calculate_current_zscore stale_core ''BTCUSDT'')]"
    using p btc_ranking_data [of 1000 "17 / 2"
        "[(0, 0), (1, 0), (2, 0), (3, 2), (4, 17 / 2), (5, 17 / 2)]" 6 5
        "Some (fresh_champion (1 / 2) 1 2 (17 / 2) 4, 4)" "([], 0)"]
    unfolding stale_core_eq [symmetric] stale_score by simp
  have c': "champion_records (update_top5_ranking argsort_insertion 1000 stale_core) ''BTCUSDT''
      = Some (fresh_champion (1 / 2) 1 2 (17 / 2) 4)"
    by (simp add: stale_ranked)
  have g: "map row_volatility (get_top5_data (update_top5_ranking argsort_insertion 1000 stale_core))
      = [8]"
    by (simp add: stale_ranked get_top5_data_def List.map_filter_def cached_volatility_def
        fresh_champion_def)
  from c t r stale_live_bounds c' g show ?thesis by simp
qed

lemma update_top5_ranking_keeps:
  "champion_records (update_top5_ranking argsort now s) = champion_records s"
  "volatility_data (update_top5_ranking argsort now s) = volatility_data s"
  "rate_history (update_top5_ranking argsort now s) = rate_history s"
  "current_rates (update_top5_ranking argsort now s) = current_rates s"
  by (simp_all add: update_top5_ranking_def Let_def)

lemma ranking_data_score:
  "(symbol, score) \<in> set (ranking_data now s) \<Longrightarrow> score = symbol_score now s symbol"
  by (auto simp: ranking_data_def)

lemma displayed_volatility:
  "map row_volatility (get_top5_data s)
     = List.map_filter (\<lambda>symbol. map_option combined (volatility_data s symbol)) (top5_symbols s)"
  unfolding get_top5_data_def List.map_filter_def
  by (induction "top5_symbols s") (auto split: option.splits)

lemma cache_matches_iff:
  "cache_matches_champion s \<longleftrightarrow>
     (\<forall>symbol. (volatility_data s symbol = None \<longrightarrow> champion_records s symbol = None)
        \<and> (\<forall>v. volatility_data s symbol = Some v \<longrightarrow>
               champion_records s symbol = Some (champion_info v)
               \<and> v = cached_volatility (champion_info v) (timestamp v)))"
  unfolding cache_matches_champion_def
  by (rule all_cong1) (simp split: option.splits)

lemma cache_matches_init: "cache_matches_champion core_init"
  by (simp add: cache_matches_champion_def core_init_def)

lemma calculate_volatility_cases:
  "calculate_volatility symbol old new now s = s
   \<or> (\<exists>info. calculate_volatility symbol old new now s =
         s\<lparr>champion_records := (champion_records s)(symbol \<mapsto> info),
           volatility_data := (volatility_data s)(symbol \<mapsto> cached_volatility info now)\<rparr>)"
proof (cases "no_score s symbol")
  case True
  then show ?thesis by (simp add: no_score_unchanged)
next
  case False
  then obtain series sd where h: "rate_history s symbol = Some series"
    and l: "\<not> length series < 3" and d: "pd_std (butlast (map snd series)) = Some sd"
    and e: "\<not> sd < 1 / 10 ^ 10"
    by (auto simp: no_score_def split: option.splits)
  obtain m where m: "pd_mean (butlast (map snd series)) = Some m"
    using d by (auto simp: pd_std_def split: option.splits)
  have l3: "3 \<le> length series" using l by simp
  show ?thesis
    using calculate_volatility_scored [OF h l3 m d e, of old new now]
    by (auto simp: Let_def)
qed

lemma calculate_volatility_cache:
  assumes "cache_matches_champion s"
  shows "cache_matches_champion (calculate_volatility symbol old new now s)"
proof -
  from calculate_volatility_cases [of symbol old new now s]
  show ?thesis
  proof
    assume "calculate_volatility symbol old new now s = s"
    then show ?thesis using assms by simp
  next
    assume "\<exists>info. calculate_volatility symbol old new now s =
         s\<lparr>champion_records := (champion_records s)(symbol \<mapsto> info),
           volatility_data := (volatility_data s)(symbol \<mapsto> cached_volatility info now)\<rparr>"
    then obtain info where e: "calculate_volatility symbol old new now s =
         s\<lparr>champion_records := (champion_records s)(symbol \<mapsto> info),
           volatility_data := (volatility_data s)(symbol \<mapsto> cached_volatility info now)\<rparr>"
      by blast
    show ?thesis
      using assms unfolding e cache_matches_iff by (simp add: cached_volatility_def)
  qed
qed

lemma process_single_item_cache:
  assumes "cache_matches_champion s"
  shows "cache_matches_champion (snd (process_single_item now item s))"
proof (cases "fst (process_single_item now item s)")
  case False
  then show ?thesis using assms by (simp add: process_single_item_rejected)
next
  case True
  have v: "validate_item item"
    using True by (cases "validate_item item") (simp_all add: process_single_item_def)
  then obtain symbol r where e: "extract_rate item = Some (symbol, r)"
    by (cases "extract_rate item") (auto simp: validate_item_def)
  have p: "should_process_symbol symbol"
    using True v e by (cases "should_process_symbol symbol") (simp_all add: process_single_item_def)
  have c: "\<And>cr h ls. cache_matches_champion
      (s\<lparr>current_rates := cr, rate_history := h, symbol_last_seen := ls\<rparr>)"
    using assms unfolding cache_matches_iff by simp
  show ?thesis
    unfolding process_single_item_accepted [OF v e p]
    by (simp add: Let_def c calculate_volatility_cache)
qed

lemma process_items_cache:
  "cache_matches_champion s \<Longrightarrow> cache_matches_champion (snd (process_items now items (k, s)))"
proof (induction items arbitrary: k s)
  case Nil
  then show ?case by simp
next
  case (Cons item items)
  obtain b s' where p: "process_single_item now item s = (b, s')"
    by (cases "process_single_item now item s")
  have "cache_matches_champion s'"
    using process_single_item_cache [OF Cons.prems, of now item] p by simp
  from Cons.IH [OF this] p show ?case by (cases b) simp_all
qed

lemma remove_symbols_cache:
  "cache_matches_champion s \<Longrightarrow> cache_matches_champion (fold remove_symbol xs s)"
proof (induction xs arbitrary: s)
  case Nil
  then show ?case by simp
next
  case (Cons x xs)
  have "cache_matches_champion (remove_symbol x s)"
    using Cons.prems unfolding cache_matches_iff by (simp add: remove_symbol_def)
  then show ?case using Cons.IH by simp
qed

lemma update_data_cache:
  assumes "cache_matches_champion s"
  shows "cache_matches_champion (update_data now items s)"
proof -
  obtain k s1 where p: "process_items now items (0, s) = (k, s1)"
    by (cases "process_items now items (0, s)")
  have b: "cache_matches_champion s1"
    using process_items_cache [OF assms, of now items 0] p by simp
  then have u: "cache_matches_champion (update_statistics now s1)"
    unfolding cache_matches_iff by (simp add: update_statistics_def)
  then have "cache_matches_champion (cleanup_caches now (update_statistics now s1))"
    unfolding cleanup_caches_def Let_def by (rule remove_symbols_cache)
  with b u p show ?thesis by (simp add: update_data_def Let_def)
qed

lemma update_top5_ranking_cache:
  "cache_matches_champion s \<Longrightarrow> cache_matches_champion (update_top5_ranking argsort now s)"
  unfolding cache_matches_iff by (simp add: update_top5_ranking_keeps)

lemma displayed_champion_score:
  assumes "cache_matches_champion s"
  shows "map row_volatility (get_top5_data s)
     = List.map_filter (\<lambda>symbol. map_option max_volatility (champion_records s symbol))
         (top5_symbols s)"
proof -
  have "\<And>symbol. map_option combined (volatility_data s symbol)
      = map_option max_volatility (champion_records s symbol)"
  proof -
    fix symbol
    show "map_option combined (volatility_data s symbol)
      = map_option max_volatility (champion_records s symbol)"
    proof (cases "volatility_data s symbol")
      case None
      then show ?thesis using assms unfolding cache_matches_iff by simp
    next
      case (Some v)
      then have c: "champion_records s symbol = Some (champion_info v)"
        and v: "v = cached_volatility (champion_info v) (timestamp v)"
        using assms unfolding cache_matches_iff by blast+
      have "combined v = combined (cached_volatility (champion_info v) (timestamp v))"
        using v by simp
      then have "combined v = max_volatility (champion_info v)"
        by (simp add: cached_volatility_def)
      then show ?thesis using Some c by simp
    qed
  qed
  then show ?thesis by (simp add: displayed_volatility)
qed

lemma last_iloc_last: "last (iloc_last n (xs @ [a])) = a"
proof (cases "n = 0")
  case True
  then show ?thesis by (simp add: iloc_last_def)
next
  case False
  then have "length xs + 1 - n - length xs = 0" by arith
  then show ?thesis using False by (simp add: iloc_last_def)
qed

lemma no_score_history:
  "rate_history s' = rate_history s \<Longrightarrow> no_score s' symbol = no_score s symbol"
  by (simp add: no_score_def)

lemma process_single_item_champion:
  assumes a: "validate_item item" "extract_rate item = Some (symbol, r)"
      "should_process_symbol symbol"
    and s': "s' = snd (process_single_item now item s)"
    and old: "old = (case map_of (current_rates s) symbol of None \<Rightarrow> r | Some x \<Rightarrow> x)"
  shows "(\<not> \<bar>r - old\<bar> > 1 / 10 ^ 9 \<or> no_score s' symbol) \<longrightarrow>
           champion_records s' = champion_records s \<and> volatility_data s' = volatility_data s"
    and "\<bar>r - old\<bar> > 1 / 10 ^ 9 \<and> \<not> no_score s' symbol \<longrightarrow>
           (\<exists>c'. champion_records s' symbol = Some c'
              \<and> volatility_data s' symbol = Some (cached_volatility c' now)
              \<and> ((champion_records s symbol = None
                   \<or> (\<exists>c. champion_records s symbol = Some c
                         \<and> now - champion_timestamp c > champion_ttl s)) \<longrightarrow>
                  champion_timestamp c' = now
                  \<and> max_volatility c' = calculate_current_zscore s' symbol))"
proof -
  let ?appended = "(case rate_history s symbol of None \<Rightarrow> [] | Some series \<Rightarrow> series) @ [(now, r)]"
  let ?kept = "if length ?appended > window_size s
               then iloc_last (window_size s) ?appended else ?appended"
  let ?s3 = "s\<lparr>current_rates := AList.update symbol r (current_rates s),
               rate_history := (rate_history s)(symbol \<mapsto> ?kept),
               symbol_last_seen := AList.update symbol now (symbol_last_seen s)\<rparr>"
  have e: "s' = (if \<bar>r - old\<bar> > 1 / 10 ^ 9
                 then calculate_volatility symbol old r now ?s3 else ?s3)"
    unfolding s' old process_single_item_accepted [OF a]
    by (cases "rate_history s symbol") (simp_all add: Let_def)
  have h: "rate_history s' = rate_history ?s3" unfolding e by simp
  have n: "no_score s' symbol = no_score ?s3 symbol" using h by (rule no_score_history)
  have lk: "last ?kept = (now, r)" by (simp add: last_iloc_last)
  have ne: "?kept \<noteq> []" by (simp add: iloc_last_def)
  show "(\<not> \<bar>r - old\<bar> > 1 / 10 ^ 9 \<or> no_score s' symbol) \<longrightarrow>
           champion_records s' = champion_records s \<and> volatility_data s' = volatility_data s"
  proof (cases "\<bar>r - old\<bar> > 1 / 10 ^ 9")
    case False
    then show ?thesis unfolding e by simp
  next
    case True
    show ?thesis
    proof
      assume "\<not> \<bar>r - old\<bar> > 1 / 10 ^ 9 \<or> no_score s' symbol"
      then have "no_score ?s3 symbol" using True n by simp
      then have "calculate_volatility symbol old r now ?s3 = ?s3" by (rule no_score_unchanged)
      then show "champion_records s' = champion_records s \<and> volatility_data s' = volatility_data s"
        unfolding e using True by simp
    qed
  qed
  show "\<bar>r - old\<bar> > 1 / 10 ^ 9 \<and> \<not> no_score s' symbol \<longrightarrow>
           (\<exists>c'. champion_records s' symbol = Some c'
              \<and> volatility_data s' symbol = Some (cached_volatility c' now)
              \<and> ((champion_records s symbol = None
                   \<or> (\<exists>c. champion_records s symbol = Some c
                         \<and> now - champion_timestamp c > champion_ttl s)) \<longrightarrow>
                  champion_timestamp c' = now
                  \<and> max_volatility c' = calculate_current_zscore s' symbol))"
  proof
    assume c: "\<bar>r - old\<bar> > 1 / 10 ^ 9 \<and> \<not> no_score s' symbol"
    then have ns: "\<not> no_score ?s3 symbol" using n by simp
    have hs: "rate_history ?s3 symbol = Some ?kept" by simp
    from ns obtain sd where l: "\<not> length ?kept < 3"
      and d: "pd_std (butlast (map snd ?kept)) = Some sd" and g: "\<not> sd < 1 / 10 ^ 10"
      unfolding no_score_def hs by (auto split: option.splits)
    obtain m where m: "pd_mean (butlast (map snd ?kept)) = Some m"
      using d by (auto simp: pd_std_def split: option.splits)
    have l3: "3 \<le> length ?kept" using l by simp
    let ?info = "case champion_records ?s3 symbol of
                    None \<Rightarrow> fresh_champion m sd old r now
                  | Some c \<Rightarrow>
                      if now - champion_timestamp c > champion_ttl ?s3
                      then fresh_champion m sd old r now
                      else if \<bar>(r - m) / sd\<bar> > max_volatility c
                      then fresh_champion m sd old r now
                      else c\<lparr>champion_age_hours := (now - champion_timestamp c) / 3600\<rparr>"
    have sc: "s' = ?s3\<lparr>champion_records := (champion_records ?s3)(symbol \<mapsto> ?info),
           volatility_data := (volatility_data ?s3)(symbol \<mapsto> cached_volatility ?info now)\<rparr>"
      unfolding e using c calculate_volatility_scored [OF hs l3 m d g, of old r now]
      by (simp add: Let_def)
    have c1: "champion_records s' symbol = Some ?info" unfolding sc by simp
    have c2: "volatility_data s' symbol = Some (cached_volatility ?info now)" unfolding sc by simp
    have hs': "rate_history s' symbol = Some ?kept" using h hs by simp
    have z: "calculate_current_zscore s' symbol = \<bar>(last (map snd ?kept) - m) / sd\<bar>"
      by (rule current_zscore_scored [OF hs' l3 m d g])
    have lr: "last (map snd ?kept) = r" using ne lk by (simp add: last_map)
    have c3: "(champion_records s symbol = None
                   \<or> (\<exists>c. champion_records s symbol = Some c
                         \<and> now - champion_timestamp c > champion_ttl s)) \<longrightarrow>
                  champion_timestamp ?info = now
                  \<and> max_volatility ?info = calculate_current_zscore s' symbol"
      unfolding z lr by (auto simp: fresh_champion_def)
    from c1 c2 c3 show "\<exists>c'. champion_records s' symbol = Some c'
              \<and> volatility_data s' symbol = Some (cached_volatility c' now)
              \<and> ((champion_records s symbol = None
                   \<or> (\<exists>c. champion_records s symbol = Some c
                         \<and> now - champion_timestamp c > champion_ttl s)) \<longrightarrow>
                  champion_timestamp c' = now
                  \<and> max_volatility c' = calculate_current_zscore s' symbol)"
      by blast
  qed
qed

lemma updates_cache:
  "cache_matches_champion s \<Longrightarrow>
   cache_matches_champion (fold (\<lambda>(now, items). update_data now items) feed s)"
  by (induction feed arbitrary: s) (auto simp: update_data_cache)

lemma stale_core_cache: "cache_matches_champion stale_core"
  unfolding stale_core_def spike_core_def
  by (intro update_data_cache updates_cache cache_matches_init)

lemma pd_stale: "pd_std [0, 0, 0, 2, 17 / 2, 17 / 2] = Some (sqrt (53 / 3))"
proof -
  have m: "pd_mean [0, 0, 0, 2, 17 / 2, 17 / 2] = Some (19 / 6)" by (simp add: pd_mean_def)
  have "sum_list (map (\<lambda>x. (x - 19 / 6)\<^sup>2) [0, 0, 0, 2, 17 / 2, 17 / 2])
          / real (length [0::real, 0, 0, 2, 17 / 2, 17 / 2] - 1) = (53 / 3 :: real)"
    by (simp add: power2_eq_square)
  then show ?thesis
    unfolding pd_std_def m by (simp only: option.case list.size) simp
qed

lemma stale_next_scored:
  "\<not> no_score (snd (process_single_item 1000 (btc (21 / 10)) stale_core)) ''BTCUSDT''"
proof -
  have v: "validate_item (btc (21 / 10))" "extract_rate (btc (21 / 10)) = Some (''BTCUSDT'', 21 / 10)"
    by (simp_all add: btc_def validate_item_def)
  have w: "0 < window_size stale_core" by (simp add: stale_core_eq)
  have h: "rate_history (snd (process_single_item 1000 (btc (21 / 10)) stale_core)) ''BTCUSDT''
      = Some [(0, 0), (1, 0), (2, 0), (3, 2), (4, 17 / 2), (5, 17 / 2), (1000, 21 / 10)]"
    unfolding process_single_item_fifo [OF v btc_ok w]
    by (simp add: stale_core_eq iloc_last_def)
  have g: "\<not> sqrt (53 / 3) * 10000000000 < 1"
  proof -
    have "1 \<le> sqrt (53 / 3)" by simp
    then show ?thesis by linarith
  qed
  show ?thesis
    unfolding no_score_def h using g by (simp add: pd_stale)
qed

text \<open>
  C1, as the code has it, for a core whose cached scores are those of its
  champion records (as they are initially and after every update and ranking
  pass). The score of a ranked symbol is the score of its champion record while
  the record's age is within the TTL, and otherwise (the record expired or
  absent) the live score of the current window. The recomputation changes no
  champion record, no cached score and no history. The score read for display
  is the score of the stored champion record, whatever its age. Records are
  written by the ingest only: a rejected item changes nothing; an accepted item
  whose rate has not changed, or for which no score is defined, leaves every
  record and cached score as it was; an accepted item with a changed rate and a
  defined score stores a record and caches its score, and where the old record
  was absent or expired the stored record is new, of that time, with the live
  score of the new window.
\<close>

theorem ranking_score_is_champion_or_live:
  assumes "cache_matches_champion s"
  shows "(\<forall>(symbol, score)\<in>set (ranking_data now s).
            score = (case champion_records s symbol of
                       None \<Rightarrow> calculate_current_zscore s symbol
                     | Some c \<Rightarrow>
                         if now - champion_timestamp c \<le> champion_ttl s then max_volatility c
                         else calculate_current_zscore s symbol))
       \<and> champion_records (update_top5_ranking argsort now s) = champion_records s
       \<and> volatility_data (update_top5_ranking argsort now s) = volatility_data s
       \<and> rate_history (update_top5_ranking argsort now s) = rate_history s
       \<and> map row_volatility (get_top5_data s)
           = List.map_filter (\<lambda>symbol. map_option combined (volatility_data s symbol))
               (top5_symbols s)
       \<and> map row_volatility (get_top5_data s)
           = List.map_filter (\<lambda>symbol. map_option max_volatility (champion_records s symbol))
               (top5_symbols s)
       \<and> cache_matches_champion core_init
       \<and> cache_matches_champion (update_data t items s)
       \<and> cache_matches_champion (update_top5_ranking argsort now s)
       \<and> (\<forall>item symbol r.
             validate_item item \<and> extract_rate item = Some (symbol, r)
             \<and> should_process_symbol symbol \<longrightarrow>
             ((\<not> \<bar>r - (case map_of (current_rates s) symbol of None \<Rightarrow> r | Some x \<Rightarrow> x)\<bar>
                   > 1 / 10 ^ 9
               \<or> no_score (snd (process_single_item t item s)) symbol) \<longrightarrow>
                champion_records (snd (process_single_item t item s)) = champion_records s
                \<and> volatility_data (snd (process_single_item t item s)) = volatility_data s)
             \<and> (\<bar>r - (case map_of (current_rates s) symbol of None \<Rightarrow> r | Some x \<Rightarrow> x)\<bar>
                   > 1 / 10 ^ 9
                \<and> \<not> no_score (snd (process_single_item t item s)) symbol \<longrightarrow>
                (\<exists>c'. champion_records (snd (process_single_item t item s)) symbol = Some c'
                   \<and> volatility_data (snd (process_single_item t item s)) symbol
                       = Some (cached_volatility c' t)
                   \<and> ((champion_records s symbol = None
                        \<or> (\<exists>c. champion_records s symbol = Some c
                              \<and> t - champion_timestamp c > champion_ttl s)) \<longrightarrow>
                       champion_timestamp c' = t
                       \<and> max_volatility c'
                           = calculate_current_zscore (snd (process_single_item t item s)) symbol))))
       \<and> (\<forall>item. \<not> fst (process_single_item t item s) \<longrightarrow>
             snd (process_single_item t item s) = s)"
proof -
  have a: "\<forall>(symbol, score)\<in>set (ranking_data now s).
       score = (case champion_records s symbol of
                  None \<Rightarrow> calculate_current_zscore s symbol
                | Some c \<Rightarrow>
                    if now - champion_timestamp c \<le> champion_ttl s then max_volatility c
                    else calculate_current_zscore s symbol)"
    using ranking_data_score [of _ _ now s]
    by (auto simp: symbol_score_def split: option.splits)
  have i: "\<forall>item symbol r.
             validate_item item \<and> extract_rate item = Some (symbol, r)
             \<and> should_process_symbol symbol \<longrightarrow>
             ((\<not> \<bar>r - (case map_of (current_rates s) symbol of None \<Rightarrow> r | Some x \<Rightarrow> x)\<bar>
                   > 1 / 10 ^ 9
               \<or> no_score (snd (process_single_item t item s)) symbol) \<longrightarrow>
                champion_records (snd (process_single_item t item s)) = champion_records s
                \<and> volatility_data (snd (process_single_item t item s)) = volatility_data s)
             \<and> (\<bar>r - (case map_of (current_rates s) symbol of None \<Rightarrow> r | Some x \<Rightarrow> x)\<bar>
                   > 1 / 10 ^ 9
                \<and> \<not> no_score (snd (process_single_item t item s)) symbol \<longrightarrow>
                (\<exists>c'. champion_records (snd (process_single_item t item s)) symbol = Some c'
                   \<and> volatility_data (snd (process_single_item t item s)) symbol
                       = Some (cached_volatility c' t)
                   \<and> ((champion_records s symbol = None
                        \<or> (\<exists>c. champion_records s symbol = Some c
                              \<and> t - champion_timestamp c > champion_ttl s)) \<longrightarrow>
                       champion_timestamp c' = t
                       \<and> max_volatility c'
                           = calculate_current_zscore (snd (process_single_item t item s)) symbol)))"
  proof (intro allI impI)
    fix item symbol r
    assume h: "validate_item item \<and> extract_rate item = Some (symbol, r)
        \<and> should_process_symbol symbol"
    then have v: "validate_item item" and e: "extract_rate item = Some (symbol, r)"
      and p: "should_process_symbol symbol" by simp_all
    from process_single_item_champion [where now = t and s = s, OF v e p refl refl]
    show "((\<not> \<bar>r - (case map_of (current_rates s) symbol of None \<Rightarrow> r | Some x \<Rightarrow> x)\<bar>
                   > 1 / 10 ^ 9
               \<or> no_score (snd (process_single_item t item s)) symbol) \<longrightarrow>
                champion_records (snd (process_single_item t item s)) = champion_records s
                \<and> volatility_data (snd (process_single_item t item s)) = volatility_data s)
             \<and> (\<bar>r - (case map_of (current_rates s) symbol of None \<Rightarrow> r | Some x \<Rightarrow> x)\<bar>
                   > 1 / 10 ^ 9
                \<and> \<not> no_score (snd (process_single_item t item s)) symbol \<longrightarrow>
                (\<exists>c'. champion_records (snd (process_single_item t item s)) symbol = Some c'
                   \<and> volatility_data (snd (process_single_item t item s)) symbol
                       = Some (cached_volatility c' t)
                   \<and> ((champion_records s symbol = None
                        \<or> (\<exists>c. champion_records s symbol = Some c
                              \<and> t - champion_timestamp c > champion_ttl s)) \<longrightarrow>
                       champion_timestamp c' = t
                       \<and> max_volatility c'
                           = calculate_current_zscore (snd (process_single_item t item s)) symbol)))"
      by (rule conjI)
  qed
  have r: "\<forall>item. \<not> fst (process_single_item t item s) \<longrightarrow>
             snd (process_single_item t item s) = s"
    by (simp add: process_single_item_rejected)
  note k = update_top5_ranking_keeps(1-3) [of argsort now s]
  note c = cache_matches_init update_data_cache [OF assms, of t items]
    update_top5_ranking_cache [OF assms, of argsort now]
  note d = displayed_volatility [of s] displayed_champion_score [OF assms]
  show ?thesis
    apply (intro conjI)
              apply (rule a)
             apply (rule k(1))
            apply (rule k(2))
           apply (rule k(3))
          apply (rule d(1))
         apply (rule d(2))
        apply (rule c(1))
       apply (rule c(2))
      apply (rule c(3))
     apply (rule i)
    apply (rule r)
    done
qed

theorem ranking_score_is_champion_or_live_witness:
  "cache_matches_champion stale_core
   \<and> (''BTCUSDT'', calculate_current_zscore stale_core ''BTCUSDT'')
        \<in> set (ranking_data 1000 stale_core)
   \<and> champion_records stale_core ''BTCUSDT'' = Some (fresh_champion (1 / 2) 1 2 (17 / 2) 4)
   \<and> \<not> 1000 - champion_timestamp (fresh_champion (1 / 2) 1 2 (17 / 2) 4) \<le> champion_ttl stale_core
   \<and> champion_records (update_top5_ranking argsort_insertion 1000 stale_core)
       = champion_records stale_core
   \<and> map row_volatility (get_top5_data (update_top5_ranking argsort_insertion 1000 stale_core))
       = [8]
   \<and> validate_item (btc (21 / 10)) \<and> should_process_symbol ''BTCUSDT''
   \<and> \<bar>21 / 10 - 17 / 2\<bar> > (1 :: real) / 10 ^ 9
   \<and> \<not> no_score (snd (process_single_item 1000 (btc (21 / 10)) stale_core)) ''BTCUSDT''
   \<and> (\<exists>c'. champion_records (snd (process_single_item 1000 (btc (21 / 10)) stale_core))
                ''BTCUSDT'' = Some c'
          \<and> volatility_data (snd (process_single_item 1000 (btc (21 / 10)) stale_core))
                ''BTCUSDT'' = Some (cached_volatility c' 1000)
          \<and> champion_timestamp c' = 1000
          \<and> max_volatility c'
              = calculate_current_zscore
                  (snd (process_single_item 1000 (btc (21 / 10)) stale_core)) ''BTCUSDT'')"
proof -
  let ?ranked = "update_top5_ranking argsort_insertion 1000 stale_core"
  let ?next = "snd (process_single_item 1000 (btc (21 / 10)) stale_core)"
  note w = ranking_score_is_champion_or_live [OF stale_core_cache,
      where now = 1000 and argsort = argsort_insertion and t = 1000]
  have p: "0 < symbol_score 1000 stale_core ''BTCUSDT''"
    unfolding stale_score by (rule stale_live_bounds(1))
  have r: "ranking_data 1000 stale_core
      = [(''BTCUSDT'', calculate_current_zscore stale_core ''BTCUSDT'')]"
    using p btc_ranking_data [of 1000 "17 / 2"
        "[(0, 0), (1, 0), (2, 0), (3, 2), (4, 17 / 2), (5, 17 / 2)]" 6 5
        "Some (fresh_champion (1 / 2) 1 2 (17 / 2) 4, 4)" "([], 0)"]
    unfolding stale_core_eq [symmetric] stale_score by simp
  have m: "(''BTCUSDT'', calculate_current_zscore stale_core ''BTCUSDT'')
      \<in> set (ranking_data 1000 stale_core)"
    unfolding r by simp
  have c: "champion_records stale_core ''BTCUSDT'' = Some (fresh_champion (1 / 2) 1 2 (17 / 2) 4)"
    by (simp add: stale_core_eq)
  have x: "\<not> 1000 - champion_timestamp (fresh_champion (1 / 2) 1 2 (17 / 2) 4)
      \<le> champion_ttl stale_core"
    by (simp add: stale_core_eq fresh_champion_def)
  have k: "champion_records ?ranked = champion_records stale_core"
    using w by blast
  have rc: "cache_matches_champion ?ranked" using w by blast
  note w2 = ranking_score_is_champion_or_live [OF rc]
  have "map row_volatility (get_top5_data ?ranked)
      = List.map_filter (\<lambda>symbol. map_option max_volatility (champion_records ?ranked symbol))
          (top5_symbols ?ranked)"
    using w2 by blast
  also have "\<dots> = [8]"
    by (simp add: stale_ranked List.map_filter_def fresh_champion_def)
  finally have g: "map row_volatility (get_top5_data ?ranked) = [8]" .
  have v: "validate_item (btc (21 / 10))"
    and e: "extract_rate (btc (21 / 10)) = Some (''BTCUSDT'', 21 / 10)"
    by (simp_all add: btc_def validate_item_def)
  have old: "(case map_of (current_rates stale_core) ''BTCUSDT'' of
                None \<Rightarrow> 21 / 10 | Some x \<Rightarrow> x) = 17 / 2"
    by (simp add: stale_core_eq)
  have ch: "\<bar>21 / 10 - 17 / 2\<bar> > (1 :: real) / 10 ^ 9" by simp
  have ex: "champion_records stale_core ''BTCUSDT'' = None
      \<or> (\<exists>c. champion_records stale_core ''BTCUSDT'' = Some c
            \<and> 1000 - champion_timestamp c > champion_ttl stale_core)"
    using c x by simp
  note ing = w [THEN conjunct2, THEN conjunct2, THEN conjunct2, THEN conjunct2, THEN conjunct2,
      THEN conjunct2, THEN conjunct2, THEN conjunct2, THEN conjunct2, THEN conjunct1,
      THEN spec, THEN spec, THEN spec, THEN mp, OF conjI [OF v conjI [OF e btc_ok]],
      THEN conjunct2, unfolded old, THEN mp, OF conjI [OF ch stale_next_scored]]
  from ing ex have f: "\<exists>c'. champion_records ?next ''BTCUSDT'' = Some c'
          \<and> volatility_data ?next ''BTCUSDT'' = Some (cached_volatility c' 1000)
          \<and> champion_timestamp c' = 1000
          \<and> max_volatility c' = calculate_current_zscore ?next ''BTCUSDT''"
    by blast
  from stale_core_cache m c x k g v btc_ok ch stale_next_scored f show ?thesis by blast
qed

lemma top5_positive_when_ranked:
  assumes "argsort_ok argsort (map snd (ranking_data now s))" and "ranking_data now s \<noteq> []"
    and "symbol \<in> set (top5_symbols (update_top5_ranking argsort now s))"
  shows "0 < symbol_score now s symbol"
proof -
  let ?rows = "map (\<lambda>i. ranking_data now s ! i)
      (take TOP_RANKING_COUNT (rev (argsort (map snd (ranking_data now s)))))"
  let ?cur = "top5_symbols (update_top5_ranking argsort now s)"
  have i: "set (argsort (map snd (ranking_data now s))) = {0..<length (ranking_data now s)}"
    using argsort_ok_indices(1) [OF assms(1)] by simp
  have sub: "set ?rows \<subseteq> set (ranking_data now s)"
    using i by (auto dest!: in_set_takeD)
  have "?cur = map fst ?rows"
    using update_top5_ranking_ok [OF assms(1,2)] by (auto simp: Let_def split: if_splits)
  then have "symbol \<in> fst ` set ?rows" using assms(3) by (simp only: set_map)
  then obtain score where "(symbol, score) \<in> set ?rows" by force
  then have m: "(symbol, score) \<in> set (ranking_data now s)" using sub by blast
  from ranking_data_positive [OF m] ranking_data_score [OF m] show ?thesis by simp
qed

end
